theory Spec2Isabelle
  imports Main
begin

section \<open>JavaScript strings and values\<close>

text \<open>
  A JavaScript string is a sequence of UTF-16 code units; a code unit is modelled as a
  natural number.  Property reads that may yield \<open>undefined\<close> or \<open>null\<close> are
  modelled as \<open>option\<close>, with \<open>None\<close> for both.
\<close>

type_synonym jsstring = "nat list"

definition js :: "string \<Rightarrow> jsstring" where
  "js s = map of_char s"

text \<open>Truthiness of a string-or-undefined value: defined and not empty.\<close>

fun truthy :: "jsstring option \<Rightarrow> bool" where
  "truthy None = False"
| "truthy (Some s) = (s \<noteq> [])"

text \<open>\<open>a || b\<close> on string-or-undefined values.\<close>

definition js_or :: "jsstring option \<Rightarrow> jsstring option \<Rightarrow> jsstring option" where
  "js_or a b = (if truthy a then a else b)"

text \<open>\<open>a || ''\<close>: the trailing default of the source's name chains.\<close>

fun or_empty :: "jsstring option \<Rightarrow> jsstring" where
  "or_empty None = []"
| "or_empty (Some s) = s"

text \<open>
  The code units that \<open>String.prototype.trim\<close> strips: the WhiteSpace and
  LineTerminator productions of ECMAScript.
\<close>

definition is_ws :: "nat \<Rightarrow> bool" where
  "is_ws c = (c \<in> {9, 10, 11, 12, 13, 32, 160, 5760, 8232, 8233, 8239, 8287, 12288, 65279}
              \<or> (8192 \<le> c \<and> c \<le> 8202))"

definition trim :: "jsstring \<Rightarrow> jsstring" where
  "trim s = rev (dropWhile is_ws (rev (dropWhile is_ws s)))"

text \<open>\<open>v?.trim()\<close>\<close>

definition opt_trim :: "jsstring option \<Rightarrow> jsstring option" where
  "opt_trim v = map_option trim v"

section \<open>Characters and the stored override\<close>

text \<open>
  A character object of the host, as the current script reads it: \<open>name\<close>, \<open>avatar\<close> and
  \<open>data?.extensions?.['chat-name']?.chatName\<close> (\<open>None\<close> when any link of the chain is
  missing).
\<close>

record character =
  name :: "jsstring option"
  avatar :: "jsstring option"
  chatName :: "jsstring option"

text \<open>\<open>getChatName(character)\<close> of the current script; the argument may be \<open>null\<close>.\<close>

definition getChatName :: "character option \<Rightarrow> jsstring" where
  "getChatName character =
     (case character of
        None \<Rightarrow> []
      | Some c \<Rightarrow> or_empty (js_or (js_or (opt_trim (chatName c)) (name c)) (Some [])))"

section \<open>Percent-decoding\<close>

text \<open>
  \<open>decodeURIComponent\<close> as ECMAScript defines it (the Decode operation with an empty
  reserved set): every \<open>%XX\<close> escape is read as an octet, a run of escapes must be the
  UTF-8 encoding of one code point, which is appended in UTF-16; anything else throws
  \<open>URIError\<close>.  \<open>TypeError\<close> is what a property read on \<open>undefined\<close>, a failing
  \<open>Object.defineProperty\<close> or a strict-mode assignment to a locked property throws;
  \<open>HostError\<close> stands for whatever a function of the host throws.
\<close>

datatype error = URIError | TypeError | HostError

fun hexval :: "nat \<Rightarrow> nat option" where
  "hexval c =
     (if 48 \<le> c \<and> c \<le> 57 then Some (c - 48)
      else if 65 \<le> c \<and> c \<le> 70 then Some (c - 55)
      else if 97 \<le> c \<and> c \<le> 102 then Some (c - 87)
      else None)"

fun octet :: "jsstring \<Rightarrow> (nat \<times> jsstring) option" where
  "octet (p # h # l # rest) =
     (if p = 37 then
        (case hexval h of None \<Rightarrow> None
         | Some a \<Rightarrow> (case hexval l of None \<Rightarrow> None | Some b \<Rightarrow> Some (16 * a + b, rest)))
      else None)"
| "octet _ = None"

fun octets :: "nat \<Rightarrow> jsstring \<Rightarrow> (nat list \<times> jsstring) option" where
  "octets 0 s = Some ([], s)"
| "octets (Suc n) s =
     (case octet s of None \<Rightarrow> None
      | Some (b, r) \<Rightarrow>
          (case octets n r of None \<Rightarrow> None | Some (bs, r') \<Rightarrow> Some (b # bs, r')))"

definition seq_len :: "nat \<Rightarrow> nat option" where
  "seq_len b =
     (if b < 128 then Some 1
      else if b < 192 then None
      else if b < 224 then Some 2
      else if b < 240 then Some 3
      else if b < 248 then Some 4
      else None)"

definition is_cont :: "nat \<Rightarrow> bool" where
  "is_cont b = (128 \<le> b \<and> b < 192)"

fun utf8_codepoint :: "nat list \<Rightarrow> nat option" where
  "utf8_codepoint [b0] = (if b0 < 128 then Some b0 else None)"
| "utf8_codepoint [b0, b1] =
     (let cp = (b0 - 192) * 64 + (b1 - 128)
      in if is_cont b1 \<and> 128 \<le> cp then Some cp else None)"
| "utf8_codepoint [b0, b1, b2] =
     (let cp = (b0 - 224) * 4096 + (b1 - 128) * 64 + (b2 - 128)
      in if is_cont b1 \<and> is_cont b2 \<and> 2048 \<le> cp \<and> \<not> (55296 \<le> cp \<and> cp \<le> 57343)
         then Some cp else None)"
| "utf8_codepoint [b0, b1, b2, b3] =
     (let cp = (b0 - 240) * 262144 + (b1 - 128) * 4096 + (b2 - 128) * 64 + (b3 - 128)
      in if is_cont b1 \<and> is_cont b2 \<and> is_cont b3 \<and> 65536 \<le> cp \<and> cp \<le> 1114111
         then Some cp else None)"
| "utf8_codepoint _ = None"

definition utf16 :: "nat \<Rightarrow> jsstring" where
  "utf16 cp =
     (if cp < 65536 then [cp]
      else [55296 + (cp - 65536) div 1024, 56320 + (cp - 65536) mod 1024])"

text \<open>An escape consumes input, so decoding terminates.\<close>

lemma octet_length: "octet s = Some (b, r) \<Longrightarrow> length r < length s"
  by (induction s rule: octet.induct) (auto split: if_splits option.splits)

lemma octets_length: "octets n s = Some (bs, r) \<Longrightarrow> length r \<le> length s"
proof (induction n arbitrary: s bs r)
  case 0
  then show ?case by simp
next
  case (Suc n)
  then show ?case
    by (fastforce split: option.splits prod.splits dest: octet_length)
qed

function decodeURIComponent :: "jsstring \<Rightarrow> error + jsstring" where
  "decodeURIComponent [] = Inr []"
| "decodeURIComponent (c # cs) =
     (if c \<noteq> 37 then
        (case decodeURIComponent cs of Inl e \<Rightarrow> Inl e | Inr r \<Rightarrow> Inr (c # r))
      else
        (case octet (c # cs) of
           None \<Rightarrow> Inl URIError
         | Some (b, rest) \<Rightarrow>
             (case seq_len b of
                None \<Rightarrow> Inl URIError
              | Some n \<Rightarrow>
                  (case octets (n - 1) rest of
                     None \<Rightarrow> Inl URIError
                   | Some (bs, rest') \<Rightarrow>
                       (case utf8_codepoint (b # bs) of
                          None \<Rightarrow> Inl URIError
                        | Some cp \<Rightarrow>
                            (case decodeURIComponent rest' of
                               Inl e \<Rightarrow> Inl e
                             | Inr r \<Rightarrow> Inr (utf16 cp @ r)))))))"
  by pat_completeness auto
termination
  apply (relation "measure length")
    apply simp
   apply simp
  apply (auto dest!: octet_length octets_length)
  done

section \<open>Chat messages\<close>

text \<open>
  The \<open>name\<close> property of a message is missing (\<open>NoProp\<close>) or a plain data property,
  whose value may be \<open>undefined\<close>, until \<open>applyPersistentName\<close> replaces it by an
  accessor whose closure holds the constant \<open>chatName\<close> and the variable
  \<open>originalName\<close>.
\<close>

datatype name_prop =
  NoProp | DataProp "jsstring option" | AccessorProp jsstring "jsstring option"

text \<open>
  How the host object answers a redefinition of, and an assignment to, a property: an
  ordinary object accepts both; a sealed one refuses \<open>Object.defineProperty\<close> and the
  creation of a property with a \<open>TypeError\<close> but accepts the assignment to a data
  property it has; a frozen one refuses all three (the script runs in strict mode).
\<close>

datatype integrity = Ordinary | Sealed | Frozen

text \<open>
  A message object of the host's transcript.  \<open>msg_avatar\<close> is its \<open>avatar\<close> property;
  \<open>processed\<close> is membership of the object in the script's \<open>processedMessages\<close>
  WeakSet, which is only ever added to.
\<close>

record message =
  name_prop :: name_prop
  msg_avatar :: "jsstring option"
  force_avatar :: "jsstring option"
  original_avatar :: "jsstring option"
  is_user :: bool
  is_system :: bool
  integrity :: integrity
  processed :: bool

text \<open>Reading \<open>message.name\<close>; the getter is \<open>() => chatName || originalName\<close>.\<close>

definition read_name :: "message \<Rightarrow> jsstring option" where
  "read_name m =
     (case name_prop m of
        NoProp \<Rightarrow> None
      | DataProp v \<Rightarrow> v
      | AccessorProp cn orig \<Rightarrow> js_or (Some cn) orig)"

text \<open>Assigning \<open>message.name = v\<close>; the setter is \<open>(val) => { originalName = val; }\<close>.\<close>

definition write_name :: "jsstring option \<Rightarrow> message \<Rightarrow> error + message" where
  "write_name v m =
     (case name_prop m of
        AccessorProp cn orig \<Rightarrow> Inr (m\<lparr>name_prop := AccessorProp cn v\<rparr>)
      | DataProp old \<Rightarrow>
          (if integrity m = Frozen then Inl TypeError else Inr (m\<lparr>name_prop := DataProp v\<rparr>))
      | NoProp \<Rightarrow>
          (if integrity m = Ordinary then Inr (m\<lparr>name_prop := DataProp v\<rparr>)
           else Inl TypeError))"

text \<open>\<open>applyPersistentName(message, chatName)\<close> on a message object that is not null.\<close>

definition applyPersistentName :: "message \<Rightarrow> jsstring \<Rightarrow> error + message" where
  "applyPersistentName m cn =
     (if processed m \<or> cn = [] then Inr m
      else if integrity m = Ordinary then
        (let originalName = read_name m
         in Inr (m\<lparr>name_prop := AccessorProp cn originalName, processed := True\<rparr>))
      else write_name (Some cn) m)"

section \<open>The first version: a hooked \<open>name\<close> property on the character\<close>

text \<open>
  In \<open>index.js\<close> the character's \<open>name\<close> is replaced by an accessor property once
  \<open>hookCharacterName\<close> has run: \<open>name_slot\<close> is the plain data property before the
  hook, \<open>originalName\<close> the \<open>_originalName\<close> property (\<open>None\<close> when the object has
  none, as the host makes it) and \<open>chatNameHooked\<close> the \<open>_chatNameHooked\<close> flag;
  \<open>hintegrity\<close> says whether the host has sealed or frozen the object.
\<close>

record hcharacter =
  name_slot :: "jsstring option"
  originalName :: "jsstring option"
  chatNameHooked :: bool
  hchatName :: "jsstring option"
  hintegrity :: integrity

text \<open>
  Reading \<open>char.name\<close>.  The getter inspects the call stack; \<open>fromMacros\<close> says
  whether the stack names the macro engine.
\<close>

definition hname :: "bool \<Rightarrow> hcharacter \<Rightarrow> jsstring option" where
  "hname fromMacros c =
     (if chatNameHooked c then
        (if fromMacros \<and> truthy (opt_trim (hchatName c)) then opt_trim (hchatName c)
         else originalName c)
      else name_slot c)"

text \<open>Writing \<open>char.name = v\<close>: the setter stores into \<open>_originalName\<close>.\<close>

definition hname_set :: "jsstring option \<Rightarrow> hcharacter \<Rightarrow> hcharacter" where
  "hname_set v c = (if chatNameHooked c then c\<lparr>originalName := v\<rparr> else c\<lparr>name_slot := v\<rparr>)"

text \<open>
  \<open>hookCharacterName\<close>, on the current character.  Nothing in it is guarded: on a frozen
  object, and on a sealed one that has no \<open>_originalName\<close> yet, the assignment
  \<open>char._originalName = char.name\<close> throws; on every sealed or frozen object
  \<open>Object.defineProperty\<close> does.
\<close>

definition hookCharacterName :: "bool \<Rightarrow> hcharacter \<Rightarrow> error option \<times> hcharacter" where
  "hookCharacterName fromMacros c =
     (if chatNameHooked c then (None, c)
      else if \<not> truthy (originalName c) \<and>
              (hintegrity c = Frozen \<or> (hintegrity c = Sealed \<and> originalName c = None))
      then (Some TypeError, c)
      else (let c1 = (if \<not> truthy (originalName c) then c\<lparr>originalName := hname fromMacros c\<rparr>
                      else c)
            in if hintegrity c1 = Ordinary then (None, c1\<lparr>chatNameHooked := True\<rparr>)
               else (Some TypeError, c1)))"

text \<open>\<open>getChatName()\<close> of \<open>index.js\<close>, on the result of \<open>getCurrentCharacter()\<close>.\<close>

definition getChatName_v1 :: "bool \<Rightarrow> hcharacter option \<Rightarrow> jsstring" where
  "getChatName_v1 fromMacros char =
     (case char of
        None \<Rightarrow> []
      | Some c \<Rightarrow>
          or_empty (js_or (js_or (js_or (opt_trim (hchatName c)) (originalName c))
                                 (hname fromMacros c)) (Some [])))"

section \<open>The host context\<close>

record host_context =
  characters :: "character list option"
  characterId :: "nat option"
  groupId :: "jsstring option"
  chat :: "message option list option"
  name2 :: "jsstring option"

text \<open>\<open>arr[i] ?? null\<close>\<close>

definition at_index :: "'a list \<Rightarrow> nat \<Rightarrow> 'a option" where
  "at_index xs i = (if i < length xs then Some (xs ! i) else None)"

section \<open>The character resolver\<close>

text \<open>\<open>str.split('/').pop()\<close> and \<open>s.split('?')[0]\<close>; 47 is the slash, 63 the question mark.\<close>

definition last_segment :: "jsstring \<Rightarrow> jsstring" where
  "last_segment s = rev (takeWhile (\<lambda>c. c \<noteq> 47) (rev s))"

definition before_query :: "jsstring \<Rightarrow> jsstring" where
  "before_query s = takeWhile (\<lambda>c. c \<noteq> 63) s"

definition normalizeAvatar :: "jsstring option \<Rightarrow> error + jsstring" where
  "normalizeAvatar str =
     (case str of
        None \<Rightarrow> Inr []
      | Some s \<Rightarrow> if s = [] then Inr [] else decodeURIComponent (before_query (last_segment s)))"

text \<open>\<open>s.includes(t)\<close>\<close>

fun starts_with :: "jsstring \<Rightarrow> jsstring \<Rightarrow> bool" where
  "starts_with s [] = True"
| "starts_with [] (t # ts) = False"
| "starts_with (c # s) (t # ts) = (c = t \<and> starts_with s ts)"

fun js_includes :: "jsstring \<Rightarrow> jsstring \<Rightarrow> bool" where
  "js_includes [] t = (t = [])"
| "js_includes (c # s) t = (starts_with (c # s) t \<or> js_includes s t)"

text \<open>
  \<open>ctx.characters.find(c => normalizeAvatar(c.avatar) === nav)\<close>: the callback runs on the
  characters in order and the scan stops at the first hit, or at the first throw.
\<close>

fun find_avatar :: "jsstring \<Rightarrow> character list \<Rightarrow> error + character option" where
  "find_avatar nav [] = Inr None"
| "find_avatar nav (c # cs) =
     (case normalizeAvatar (avatar c) of
        Inl e \<Rightarrow> Inl e
      | Inr a \<Rightarrow> if a = nav then Inr (Some c) else find_avatar nav cs)"

definition exact_name :: "jsstring \<Rightarrow> character \<Rightarrow> bool" where
  "exact_name nm c = (name c = Some nm)"

definition fuzzy_name :: "jsstring \<Rightarrow> character \<Rightarrow> bool" where
  "fuzzy_name nm c =
     (let charName = trim (or_empty (js_or (name c) (Some [])))
      in length charName > 2 \<and> (js_includes nm charName \<or> js_includes charName nm))"

text \<open>\<open>if (found) return found;\<close> and on to the next step otherwise.\<close>

definition or_else :: "error + 'a option \<Rightarrow> error + 'a option \<Rightarrow> error + 'a option" where
  "or_else r k = (case r of Inl e \<Rightarrow> Inl e | Inr (Some c) \<Rightarrow> Inr (Some c) | Inr None \<Rightarrow> k)"

definition match_avatar :: "jsstring \<Rightarrow> character list \<Rightarrow> error + character option" where
  "match_avatar normalizedAvatar cs =
     (if normalizedAvatar \<noteq> [] then find_avatar normalizedAvatar cs else Inr None)"

definition match_original :: "message \<Rightarrow> character list \<Rightarrow> error + character option" where
  "match_original message cs =
     (if truthy (original_avatar message) then
        (case normalizeAvatar (original_avatar message) of
           Inl e \<Rightarrow> Inl e
         | Inr normOrig \<Rightarrow> find_avatar normOrig cs)
      else Inr None)"

definition match_name :: "jsstring \<Rightarrow> character list \<Rightarrow> error + character option" where
  "match_name nm cs =
     (if nm \<noteq> [] then
        or_else (Inr (find (exact_name nm) cs)) (Inr (find (fuzzy_name nm) cs))
      else Inr None)"

definition fallback :: "host_context \<Rightarrow> character list \<Rightarrow> error + character option" where
  "fallback ctx cs =
     (case characterId ctx of
        None \<Rightarrow> Inr None
      | Some i \<Rightarrow> if \<not> truthy (groupId ctx) then Inr (at_index cs i) else Inr None)"

definition getCharacterForMessage ::
  "host_context option \<Rightarrow> message option \<Rightarrow> error + character option" where
  "getCharacterForMessage ctxo messageo =
     (case ctxo of None \<Rightarrow> Inr None | Some ctx \<Rightarrow>
      (case characters ctx of None \<Rightarrow> Inr None | Some cs \<Rightarrow>
       (case messageo of None \<Rightarrow> Inr None | Some message \<Rightarrow>
          (let avatar = js_or (js_or (msg_avatar message) (force_avatar message))
                              (original_avatar message);
               nm = trim (or_empty (js_or (read_name message) (Some [])))
           in case normalizeAvatar avatar of
                Inl e \<Rightarrow> Inl e
              | Inr normalizedAvatar \<Rightarrow>
                  or_else (match_avatar normalizedAvatar cs)
                    (or_else (match_original message cs)
                       (or_else (match_name nm cs) (fallback ctx cs)))))))"

section \<open>The rendered chat\<close>

text \<open>
  A DOM node is a text node or an element with a tag, its class list and its child nodes.
\<close>

datatype node = Text jsstring | Elem string "string list" "node list"

text \<open>
  The eight selectors of \<open>applyNameOverrideToElement\<close> are a class or a tag, optionally
  below an ancestor that carries a class.
\<close>

datatype target = Cls string | Tag string

datatype selector = Sel "string option" target

definition selectors :: "selector list" where
  "selectors =
     [Sel (Some ''ch_name'') (Cls ''name_text''),
      Sel (Some ''mes_header'') (Cls ''name''),
      Sel None (Cls ''ch_name''),
      Sel None (Cls ''name_text''),
      Sel None (Cls ''mes_name''),
      Sel None (Cls ''mesHeader_name''),
      Sel (Some ''ch_name'') (Tag ''span''),
      Sel (Some ''mes_header'') (Tag ''span'')]"

text \<open>
  \<open>outer\<close> collects the classes of the proper ancestors of the node under test; the
  ancestor of a compound selector may lie at or above the element queried.
\<close>

fun matches :: "selector \<Rightarrow> string list \<Rightarrow> string \<Rightarrow> string list \<Rightarrow> bool" where
  "matches (Sel anc tgt) outer tg cls =
     ((case tgt of Cls k \<Rightarrow> k \<in> set cls | Tag t \<Rightarrow> t = tg) \<and>
      (case anc of None \<Rightarrow> True | Some a \<Rightarrow> a \<in> set outer))"

text \<open>
  \<open>element.querySelector(s)\<close>: the first proper descendant in document order that
  matches, given as the path of child indices leading to it.
\<close>

fun find_node :: "selector \<Rightarrow> string list \<Rightarrow> node \<Rightarrow> nat list option"
  and find_kids :: "selector \<Rightarrow> string list \<Rightarrow> node list \<Rightarrow> nat \<Rightarrow> nat list option" where
  "find_node s outer (Text t) = None"
| "find_node s outer (Elem tg cls ks) =
     (if matches s outer tg cls then Some [] else find_kids s (cls @ outer) ks 0)"
| "find_kids s outer [] i = None"
| "find_kids s outer (k # ks) i =
     (case find_node s outer k of
        Some p \<Rightarrow> Some (i # p)
      | None \<Rightarrow> find_kids s outer ks (Suc i))"

fun querySelector :: "selector \<Rightarrow> string list \<Rightarrow> node \<Rightarrow> nat list option" where
  "querySelector s outer (Text t) = None"
| "querySelector s outer (Elem tg cls ks) = find_kids s (cls @ outer) ks 0"

fun node_at :: "node \<Rightarrow> nat list \<Rightarrow> node option" where
  "node_at n [] = Some n"
| "node_at (Text t) (i # p) = None"
| "node_at (Elem tg cls ks) (i # p) = (if i < length ks then node_at (ks ! i) p else None)"

fun update_at :: "node \<Rightarrow> nat list \<Rightarrow> node \<Rightarrow> node" where
  "update_at n [] new = new"
| "update_at (Text t) (i # p) new = Text t"
| "update_at (Elem tg cls ks) (i # p) new =
     (if i < length ks then Elem tg cls (ks[i := update_at (ks ! i) p new]) else Elem tg cls ks)"


text \<open>\<open>children\<close> are the element children, \<open>childNodes\<close> all of them.\<close>

fun is_elem :: "node \<Rightarrow> bool" where
  "is_elem (Text t) = False"
| "is_elem (Elem tg cls ks) = True"

fun textContent :: "node \<Rightarrow> jsstring" where
  "textContent (Text t) = t"
| "textContent (Elem tg cls ks) = concat (map textContent ks)"

text \<open>Assigning \<open>textContent\<close> replaces the children by one text node, or by none.\<close>

fun set_textContent :: "node \<Rightarrow> jsstring \<Rightarrow> node" where
  "set_textContent (Text t) s = Text s"
| "set_textContent (Elem tg cls ks) s = Elem tg cls (if s = [] then [] else [Text s])"

text \<open>The first child that is a text node with a non-blank content, and its index.\<close>

fun first_text :: "node list \<Rightarrow> nat \<Rightarrow> (nat \<times> jsstring) option" where
  "first_text [] i = None"
| "first_text (Text t # ks) i =
     (if length (trim t) > 0 then Some (i, t) else first_text ks (Suc i))"
| "first_text (Elem tg cls ks' # ks) i = first_text ks (Suc i)"

text \<open>
  The selector loop of \<open>applyNameOverrideToElement\<close>; the second component counts the
  assignments to \<open>textContent\<close>.  An \<open>undefined\<close> name is written as the empty string.
\<close>

fun apply_selectors ::
  "selector list \<Rightarrow> string list \<Rightarrow> node \<Rightarrow> jsstring option \<Rightarrow> node \<times> nat" where
  "apply_selectors [] outer el cn = (el, 0)"
| "apply_selectors (s # ss) outer el cn =
     (case querySelector s outer el of
        None \<Rightarrow> apply_selectors ss outer el cn
      | Some p \<Rightarrow>
          (case node_at el p of
             Some (Elem tg cls ks) \<Rightarrow>
               (if filter is_elem ks = [] then
                  (if Some (textContent (Elem tg cls ks)) \<noteq> cn
                   then (update_at el p (set_textContent (Elem tg cls ks) (or_empty cn)), 1)
                   else (el, 0))
                else
                  (case first_text ks 0 of
                     Some (i, t) \<Rightarrow>
                       (if Some (trim t) \<noteq> cn
                        then (update_at el (p @ [i]) (Text (or_empty cn)), 1)
                        else (el, 0))
                   | None \<Rightarrow> apply_selectors ss outer el cn))
           | _ \<Rightarrow> (el, 0)))"

definition applyNameOverrideToElement :: "string list \<Rightarrow> node \<Rightarrow> jsstring option \<Rightarrow> node \<times> nat" where
  "applyNameOverrideToElement outer messageElement cn =
     apply_selectors selectors outer messageElement cn"

text \<open>
  Two trees that differ only in text: the elements, their tags and classes agree, a text
  node is blank in both or in neither, and below an element without element children
  anything textual may differ.
\<close>

fun alike :: "node \<Rightarrow> node \<Rightarrow> bool" where
  "alike (Text t) (Text t') = ((trim t = []) = (trim t' = []))"
| "alike (Elem tg cls ks) (Elem tg' cls' ks') =
     (tg = tg' \<and> cls = cls' \<and>
      (if filter is_elem ks = [] then filter is_elem ks' = [] else list_all2 alike ks ks'))"
| "alike (Text t) (Elem tg cls ks) = False"
| "alike (Elem tg cls ks) (Text t) = False"

section \<open>The display synchronizer\<close>

text \<open>
  The state the synchronizer works on: what \<open>getContext()\<close> returns, the script's
  \<open>nameCache\<close> (a \<open>Map\<close>; a key may be any value \<open>cacheKey\<close> takes, \<open>undefined\<close>
  included), and the rendered chat: for each \<open>mesid\<close> the element that
  \<open>#chat .mes[mesid="..."]\<close> selects, the classes carried by the ancestors of these
  blocks, and a count of the text writes made so far.  Message blocks are siblings: a write
  inside one leaves the others as they are.
\<close>

record world =
  host :: "host_context option"
  nameCache :: "jsstring option \<Rightarrow> jsstring option"
  above :: "string list"
  blocks :: "nat \<Rightarrow> node option"
  dom_writes :: nat

definition cacheKey :: "message \<Rightarrow> jsstring option" where
  "cacheKey m =
     js_or (js_or (js_or (msg_avatar m) (force_avatar m)) (original_avatar m)) (read_name m)"

text \<open>
  \<open>updateUIName(messageId)\<close> from the point where \<open>ctx.chat[messageId]\<close> has been read.
\<close>

definition updateUIName_msg :: "nat \<Rightarrow> message option \<Rightarrow> world \<Rightarrow> world" where
  "updateUIName_msg messageId mo w =
     (case mo of
        None \<Rightarrow> w
      | Some m \<Rightarrow>
          if is_user m \<or> is_system m then w
          else
            (case blocks w messageId of
               None \<Rightarrow> w
             | Some messageElement \<Rightarrow>
                 (case applyNameOverrideToElement (above w) messageElement (read_name m) of
                    (el, k) \<Rightarrow>
                      w\<lparr>blocks := (blocks w)(messageId := Some el),
                        dom_writes := dom_writes w + k\<rparr>)))"

definition updateUIName :: "nat \<Rightarrow> world \<Rightarrow> world" where
  "updateUIName messageId w =
     (case host w of
        None \<Rightarrow> w
      | Some ctx \<Rightarrow>
          (case chat ctx of
             None \<Rightarrow> w
           | Some msgs \<Rightarrow>
               updateUIName_msg messageId
                 (case at_index msgs messageId of None \<Rightarrow> None | Some mo \<Rightarrow> mo) w))"

text \<open>
  The cache lookup of the loop body: the cached name, or on a miss the resolved one,
  stored when the key is truthy.
\<close>

definition lookup_name ::
  "host_context \<Rightarrow> message \<Rightarrow> world \<Rightarrow> error + (jsstring \<times> world)" where
  "lookup_name ctx m w =
     (let key = cacheKey m
      in case nameCache w key of
           Some cn \<Rightarrow> Inr (cn, w)
         | None \<Rightarrow>
             (case getCharacterForMessage (Some ctx) (Some m) of
                Inl e \<Rightarrow> Inl e
              | Inr ch \<Rightarrow>
                  (let cn = getChatName ch
                   in Inr (cn, if truthy key then w\<lparr>nameCache := (nameCache w)(key \<mapsto> cn)\<rparr>
                               else w))))"

text \<open>The body of \<open>ctx.chat.forEach((message, id) => ...)\<close>.\<close>

definition sync_message ::
  "host_context \<Rightarrow> nat \<Rightarrow> message option \<Rightarrow> world \<Rightarrow> error option \<times> message option \<times> world" where
  "sync_message ctx i mo w =
     (case mo of
        None \<Rightarrow> (None, mo, w)
      | Some m \<Rightarrow>
          if is_user m \<or> is_system m then (None, mo, w)
          else
            (case lookup_name ctx m w of
               Inl e \<Rightarrow> (Some e, mo, w)
             | Inr (cn, w1) \<Rightarrow>
                 if cn \<noteq> [] then
                   (case applyPersistentName m cn of
                      Inl e \<Rightarrow> (Some e, mo, w1)
                    | Inr m' \<Rightarrow> (None, Some m', updateUIName_msg i (Some m') w1))
                 else (None, mo, w1)))"

text \<open>The loop itself: a throw ends it and leaves the work done so far in place.\<close>

fun sync_loop ::
  "host_context \<Rightarrow> nat \<Rightarrow> message option list \<Rightarrow> world \<Rightarrow>
     error option \<times> message option list \<times> world" where
  "sync_loop ctx i [] w = (None, [], w)"
| "sync_loop ctx i (mo # rest) w =
     (case sync_message ctx i mo w of
        (Some e, mo', w') \<Rightarrow> (Some e, mo' # rest, w')
      | (None, mo', w') \<Rightarrow>
          (case sync_loop ctx (Suc i) rest w' of
             (e, rest', w'') \<Rightarrow> (e, mo' # rest', w'')))"

text \<open>Step 1 of \<open>syncChatData\<close>: \<open>name2\<close> in a one-to-one chat.\<close>

definition sync_name2 :: "host_context \<Rightarrow> error + host_context" where
  "sync_name2 ctx =
     (case characterId ctx of
        None \<Rightarrow> Inr ctx
      | Some i \<Rightarrow>
          if \<not> truthy (groupId ctx) then
            (case characters ctx of
               None \<Rightarrow> Inl TypeError
             | Some cs \<Rightarrow>
                 (let cn = getChatName (at_index cs i)
                  in Inr (if cn \<noteq> [] \<and> name2 ctx \<noteq> Some cn then ctx\<lparr>name2 := Some cn\<rparr>
                          else ctx)))
          else Inr ctx)"

definition syncChatData :: "world \<Rightarrow> error option \<times> world" where
  "syncChatData w =
     (case host w of
        None \<Rightarrow> (None, w)
      | Some ctx \<Rightarrow>
          (case chat ctx of
             None \<Rightarrow> (None, w)
           | Some msgs \<Rightarrow>
               (case sync_name2 ctx of
                  Inl e \<Rightarrow> (Some e, w)
                | Inr ctx1 \<Rightarrow>
                    (case sync_loop ctx1 0 msgs w of
                       (e, msgs', w') \<Rightarrow> (e, w'\<lparr>host := Some (ctx1\<lparr>chat := Some msgs'\<rparr>)\<rparr>)))))"

text \<open>\<open>updateAllNames\<close>: \<open>nameCache.clear()\<close>, then the synchronizer.\<close>

definition updateAllNames :: "world \<Rightarrow> error option \<times> world" where
  "updateAllNames w = syncChatData (w\<lparr>nameCache := (\<lambda>k. None)\<rparr>)"

text \<open>The message at an index of the transcript, and what the host sees in the state.\<close>

definition message_at :: "world \<Rightarrow> nat \<Rightarrow> message option" where
  "message_at w i =
     (case host w of
        None \<Rightarrow> None
      | Some ctx \<Rightarrow>
          (case chat ctx of
             None \<Rightarrow> None
           | Some msgs \<Rightarrow> (case at_index msgs i of None \<Rightarrow> None | Some mo \<Rightarrow> mo)))"

text \<open>
  What can happen to the \<open>name\<close> of one message object afterwards: the host assigns to
  it, or the synchronizer calls \<open>applyPersistentName\<close> on it again.
\<close>

datatype msg_op = Assign "jsstring option" | Apply jsstring

fun run_op :: "msg_op \<Rightarrow> message \<Rightarrow> error + message" where
  "run_op (Assign v) m = write_name v m"
| "run_op (Apply cn) m = applyPersistentName m cn"

fun run_ops :: "msg_op list \<Rightarrow> message \<Rightarrow> error + message" where
  "run_ops [] m = Inr m"
| "run_ops (x # xs) m = (case run_op x m of Inl e \<Rightarrow> Inl e | Inr m1 \<Rightarrow> run_ops xs m1)"

text \<open>The value last assigned by a sequence of operations, \<open>v\<close> when there is none.\<close>

fun assigned :: "msg_op list \<Rightarrow> jsstring option \<Rightarrow> jsstring option" where
  "assigned [] v = v"
| "assigned (Assign u # xs) v = assigned xs u"
| "assigned (Apply cn # xs) v = assigned xs v"

text \<open>
  The effect of the host's \<open>writeExtensionField(characterId, 'chat-name', {chatName: v})\<close>,
  which the input field's listener calls: the value is stored as the character's
  override.
\<close>

definition writeExtensionField :: "nat \<Rightarrow> jsstring \<Rightarrow> host_context \<Rightarrow> host_context" where
  "writeExtensionField i v ctx =
     (case characters ctx of
        None \<Rightarrow> ctx
      | Some cs \<Rightarrow>
          if i < length cs then ctx\<lparr>characters := Some (cs[i := (cs ! i)\<lparr>chatName := Some v\<rparr>])\<rparr>
          else ctx)"

definition set_override :: "nat \<Rightarrow> jsstring \<Rightarrow> world \<Rightarrow> world" where
  "set_override i v w = w\<lparr>host := map_option (writeExtensionField i v) (host w)\<rparr>"

text \<open>
  The entry points that touch the transcript or the rendered chat: the synchronizer, the
  full refresh, and the DOM updater that the mutation observer calls with a \<open>mesid\<close>.
  A throw ends the handler; the state it leaves is the state that persists.
\<close>

datatype invocation = SyncChatData | UpdateAllNames | UpdateUIName nat

fun invoke :: "invocation \<Rightarrow> world \<Rightarrow> world" where
  "invoke SyncChatData w = snd (syncChatData w)"
| "invoke UpdateAllNames w = snd (updateAllNames w)"
| "invoke (UpdateUIName i) w = updateUIName i w"

fun invoke_all :: "invocation list \<Rightarrow> world \<Rightarrow> world" where
  "invoke_all [] w = w"
| "invoke_all (x # xs) w = invoke_all xs (invoke x w)"

text \<open>The entries the loop body returns from at once: holes, user and system messages.\<close>

definition untouched :: "message option \<Rightarrow> bool" where
  "untouched mo = (case mo of None \<Rightarrow> True | Some m \<Rightarrow> is_user m \<or> is_system m)"

text \<open>
  No message of the list that the loop body works on has the cache key \<open>key\<close>: the
  message that follows is the first to ask the cache for it.
\<close>

fun key_unseen :: "message option list \<Rightarrow> jsstring option \<Rightarrow> bool" where
  "key_unseen [] key = True"
| "key_unseen (mo # ms) key =
     ((case mo of
         None \<Rightarrow> True
       | Some m \<Rightarrow> is_user m \<or> is_system m \<or> cacheKey m \<noteq> key) \<and> key_unseen ms key)"

definition transcript :: "world \<Rightarrow> message option list" where
  "transcript w =
     (case host w of
        None \<Rightarrow> []
      | Some ctx \<Rightarrow> (case chat ctx of None \<Rightarrow> [] | Some msgs \<Rightarrow> msgs))"

definition character_at :: "world \<Rightarrow> nat \<Rightarrow> character option" where
  "character_at w i =
     (case host w of
        None \<Rightarrow> None
      | Some ctx \<Rightarrow> (case characters ctx of None \<Rightarrow> None | Some cs \<Rightarrow> at_index cs i))"

text \<open>The two inputs of the resolver that refer to the author of a message.\<close>

definition avatar_ref :: "message \<Rightarrow> jsstring option" where
  "avatar_ref m = js_or (js_or (msg_avatar m) (force_avatar m)) (original_avatar m)"

definition author_name :: "message \<Rightarrow> jsstring" where
  "author_name m = trim (or_empty (js_or (read_name m) (Some [])))"

section \<open>Macro registration and start-up\<close>

text \<open>
  The calls the script makes into the host's two macro engines.  The host decides which of
  them throw; \<open>throws\<close> is that decision.
\<close>

datatype host_call =
  HasMacro | UnregisterMacro | RegisterMacro | RegisterProvider | LegacyRegisterMacro

text \<open>
  \<open>ctx.macros\<close> of the new engine: whether \<open>registry\<close> is there, whether it has a
  \<open>char\<close> macro, and whether \<open>envBuilder?.registerProvider\<close> is truthy.
\<close>

record macro_engine =
  has_registry :: bool
  has_char :: bool
  has_provider_hook :: bool

text \<open>
  The macro and event facilities of the host: \<open>ctx.macros\<close> (\<open>window.macros\<close> in the
  first version), whether \<open>ctx.registerMacro\<close>, \<open>ctx.eventSource\<close> and
  \<open>ctx.eventTypes\<close> (\<open>ctx.event_types\<close> in the first version) are there, and which
  macro-engine calls throw.
\<close>

record host_api =
  macros :: "macro_engine option"
  legacy_registerMacro :: bool
  eventSource :: bool
  eventTypes :: bool
  throws :: "host_call \<Rightarrow> bool"

datatype event =
  CHARACTER_MESSAGE_RENDERED | MESSAGE_UPDATED | MESSAGE_RECEIVED | STREAM_TOKEN_RECEIVED
  | GENERATE_BEFORE_COMBINE_PROMPTS | CHAT_CHANGED | CHARACTER_SELECTED

datatype handler = H_syncChatData | H_handleGenerateBeforePrompt | H_handleCharacterChange

text \<open>
  What both versions of the script share: the host's macro and event facilities, the two
  flags, the part of the editor panel the script touches (\<open>#tags_div\<close>, the injected
  input with its value and its listeners), and a record of what the script has asked of the
  host: the macro-engine calls made, in order, the event subscriptions, and the warnings
  logged.
\<close>

record lifecycle =
  api :: host_api
  initialized :: bool
  eventListenersAttached :: bool
  tags_div :: bool
  chat_name_input :: "jsstring option"
  input_listeners :: nat
  calls :: "host_call list"
  subscriptions :: "(event \<times> handler) list"
  warnings :: nat

text \<open>The current script adds the synchronizer's state, \<open>#chat\<close> and its observer.\<close>

record script = lifecycle +
  core :: world
  chatObserver :: bool
  chat_container :: bool

text \<open>
  The first version works on character objects with a hooked \<open>name\<close>; \<open>v1_ctx\<close> says
  whether \<open>getContext()\<close> returns a context, and \<open>v1_characters\<close> is
  \<open>ctx.characters\<close>, \<open>None\<close> when the context has none: \<open>index.js\<close> indexes it
  without a guard.
\<close>

record script_v1 = lifecycle +
  v1_ctx :: bool
  v1_characters :: "hcharacter list option"
  v1_characterId :: "nat option"

text \<open>One call into the host: it is made, and it returns or throws.\<close>

definition host_call ::
  "host_call \<Rightarrow> 'a lifecycle_scheme \<Rightarrow> error option \<times> 'a lifecycle_scheme" where
  "host_call c s = (if throws (api s) c then Some HostError else None, s\<lparr>calls := calls s @ [c]\<rparr>)"

text \<open>Sequencing inside a \<open>try\<close> block: a throw skips what follows.\<close>

definition and_then :: "error option \<times> 'a \<Rightarrow> ('a \<Rightarrow> error option \<times> 'a) \<Rightarrow> error option \<times> 'a" where
  "and_then r k = (case r of (Some e, s) \<Rightarrow> (Some e, s) | (None, s) \<Rightarrow> k s)"

definition set_has_char :: "bool \<Rightarrow> 'a lifecycle_scheme \<Rightarrow> 'a lifecycle_scheme" where
  "set_has_char b s =
     s\<lparr>api := (api s)\<lparr>macros := map_option (\<lambda>eng. eng\<lparr>has_char := b\<rparr>) (macros (api s))\<rparr>\<rparr>"

text \<open>\<open>getSelectedCharacter()\<close>\<close>

definition getSelectedCharacter :: "world \<Rightarrow> error + character option" where
  "getSelectedCharacter w =
     (case host w of
        None \<Rightarrow> Inr None
      | Some ctx \<Rightarrow>
          (case characterId ctx of
             None \<Rightarrow> Inr None
           | Some i \<Rightarrow>
               (case characters ctx of
                  None \<Rightarrow> Inl TypeError
                | Some cs \<Rightarrow> Inr (at_index cs i))))"

text \<open>\<open>loadChatNameToField()\<close>\<close>

definition loadChatNameToField :: "script \<Rightarrow> error option \<times> script" where
  "loadChatNameToField s =
     (case chat_name_input s of
        None \<Rightarrow> (None, s)
      | Some old \<Rightarrow>
          (case getSelectedCharacter (core s) of
             Inl e \<Rightarrow> (Some e, s)
           | Inr ch \<Rightarrow>
               (None, s\<lparr>chat_name_input :=
                          Some (or_empty (js_or (case ch of None \<Rightarrow> None | Some c \<Rightarrow> chatName c)
                                                (Some [])))\<rparr>)))"

text \<open>\<open>addInputField()\<close>\<close>

definition addInputField :: "script \<Rightarrow> error option \<times> script" where
  "addInputField s =
     (if chat_name_input s \<noteq> None then (None, s)
      else if \<not> tags_div s then (None, s)
      else loadChatNameToField
             (s\<lparr>chat_name_input := Some [], input_listeners := input_listeners s + 1\<rparr>))"

text \<open>The \<open>try\<close> block for the new macro engine, entered when \<open>ctx.macros\<close> is truthy.\<close>

definition register_new ::
  "macro_engine \<Rightarrow> 'a lifecycle_scheme \<Rightarrow> error option \<times> 'a lifecycle_scheme" where
  "register_new eng s =
     (if \<not> has_registry eng then (Some TypeError, s)
      else
        and_then (host_call HasMacro s) (\<lambda>s1.
        and_then (if has_char eng
                  then and_then (host_call UnregisterMacro s1) (\<lambda>s2. (None, set_has_char False s2))
                  else (None, s1)) (\<lambda>s3.
        and_then (host_call RegisterMacro s3) (\<lambda>s4.
          (if has_provider_hook eng then host_call RegisterProvider (set_has_char True s4)
           else (None, set_has_char True s4))))))"

text \<open>\<open>try { ... } catch (e) { console.warn(...) }\<close> and \<open>try { ... } catch (e) {}\<close>\<close>

definition caught_warn :: "error option \<times> 'a lifecycle_scheme \<Rightarrow> 'a lifecycle_scheme" where
  "caught_warn r = (case r of (Some e, s) \<Rightarrow> s\<lparr>warnings := warnings s + 1\<rparr> | (None, s) \<Rightarrow> s)"

definition caught :: "error option \<times> 'a \<Rightarrow> 'a" where
  "caught r = snd r"

text \<open>\<open>registerMacroOverrides()\<close> of the current script.\<close>

definition registerMacroOverrides :: "script \<Rightarrow> error option \<times> script" where
  "registerMacroOverrides s =
     (case host (core s) of
        None \<Rightarrow> (None, s)
      | Some ctx \<Rightarrow>
          (let s1 = (case macros (api s) of
                       None \<Rightarrow> s
                     | Some eng \<Rightarrow> caught_warn (register_new eng s));
               s2 = (if legacy_registerMacro (api s1) then caught (host_call LegacyRegisterMacro s1)
                     else s1)
           in (None, s2)))"

text \<open>\<open>attachEventListeners(ctx)\<close>\<close>

definition attachEventListeners :: "script \<Rightarrow> script" where
  "attachEventListeners s =
     (if eventListenersAttached s \<or> \<not> eventSource (api s) \<or> \<not> eventTypes (api s) then s
      else s\<lparr>subscriptions := subscriptions s @
                [(CHARACTER_MESSAGE_RENDERED, H_syncChatData),
                 (MESSAGE_UPDATED, H_syncChatData),
                 (MESSAGE_RECEIVED, H_syncChatData),
                 (STREAM_TOKEN_RECEIVED, H_syncChatData),
                 (GENERATE_BEFORE_COMBINE_PROMPTS, H_handleGenerateBeforePrompt),
                 (CHAT_CHANGED, H_handleCharacterChange),
                 (CHARACTER_SELECTED, H_handleCharacterChange)],
             eventListenersAttached := True\<rparr>)"

text \<open>\<open>setupChatObserver()\<close>\<close>

definition setupChatObserver :: "script \<Rightarrow> script" where
  "setupChatObserver s =
     (if \<not> chat_container s \<or> chatObserver s then s else s\<lparr>chatObserver := True\<rparr>)"

text \<open>\<open>updateAllNames()\<close> on the script state.\<close>

definition refresh :: "script \<Rightarrow> error option \<times> script" where
  "refresh s = (case updateAllNames (core s) of (e, w) \<Rightarrow> (e, s\<lparr>core := w\<rparr>))"

text \<open>\<open>initialize(ctx)\<close>, called with what \<open>getContext()\<close> returned.\<close>

definition initialize :: "script \<Rightarrow> error option \<times> script" where
  "initialize s =
     (if initialized s then (None, s)
      else
        and_then (addInputField s) (\<lambda>s1.
        and_then (registerMacroOverrides s1) (\<lambda>s2.
        and_then (refresh (setupChatObserver (attachEventListeners s2))) (\<lambda>s3.
          (None, s3\<lparr>initialized := True\<rparr>)))))"


subsection \<open>The first version\<close>

text \<open>\<open>getCurrentCharacter()\<close>\<close>

definition getCurrentCharacter :: "script_v1 \<Rightarrow> error + hcharacter option" where
  "getCurrentCharacter s =
     (if \<not> v1_ctx s then Inr None
      else
        (case v1_characterId s of
           None \<Rightarrow> Inr None
         | Some i \<Rightarrow>
             (case v1_characters s of
                None \<Rightarrow> Inl TypeError
              | Some cs \<Rightarrow> Inr (at_index cs i))))"

text \<open>\<open>loadChatNameToField()\<close> of \<open>index.js\<close>\<close>

definition loadChatNameToField_v1 :: "script_v1 \<Rightarrow> error option \<times> script_v1" where
  "loadChatNameToField_v1 s =
     (case chat_name_input s of
        None \<Rightarrow> (None, s)
      | Some old \<Rightarrow>
          (case getCurrentCharacter s of
             Inl e \<Rightarrow> (Some e, s)
           | Inr None \<Rightarrow> (None, s\<lparr>chat_name_input := Some []\<rparr>)
           | Inr (Some c) \<Rightarrow>
               (None, s\<lparr>chat_name_input := Some (or_empty (js_or (hchatName c) (Some [])))\<rparr>)))"

text \<open>\<open>addInputField()\<close> of \<open>index.js\<close>\<close>

definition addInputField_v1 :: "script_v1 \<Rightarrow> error option \<times> script_v1" where
  "addInputField_v1 s =
     (if chat_name_input s \<noteq> None then (None, s)
      else if \<not> tags_div s then (None, s\<lparr>warnings := warnings s + 1\<rparr>)
      else loadChatNameToField_v1
             (s\<lparr>chat_name_input := Some [], input_listeners := input_listeners s + 1\<rparr>))"

text \<open>
  \<open>hookCharacterName()\<close> on the state: the current character object is hooked in place,
  or the call throws and leaves the object as far as it got.
\<close>

definition hookCurrent :: "script_v1 \<Rightarrow> error option \<times> script_v1" where
  "hookCurrent s =
     (case getCurrentCharacter s of
        Inl e \<Rightarrow> (Some e, s)
      | Inr None \<Rightarrow> (None, s)
      | Inr (Some c) \<Rightarrow>
          (case hookCharacterName False c of
             (e, c') \<Rightarrow>
               (e, s\<lparr>v1_characters :=
                       (case v1_characterId s of
                          None \<Rightarrow> v1_characters s
                        | Some i \<Rightarrow> map_option (\<lambda>cs. cs[i := c']) (v1_characters s))\<rparr>)))"

text \<open>
  \<open>registerMacroOverrides()\<close> of \<open>index.js\<close>: the new engine is \<open>window.macros\<close>, asked
  only when its \<open>registry\<close> is there and never for a provider.  The two registrations
  sit in \<open>try\<close> blocks; the call of \<open>hookCharacterName()\<close> that ends the function does
  not, so what it throws reaches the caller.
\<close>

definition registerMacroOverrides_v1 :: "script_v1 \<Rightarrow> error option \<times> script_v1" where
  "registerMacroOverrides_v1 s =
     (if \<not> v1_ctx s then (None, s)
      else
        (let s1 = (case macros (api s) of
                     None \<Rightarrow> s
                   | Some eng \<Rightarrow>
                       if has_registry eng
                       then caught_warn (register_new (eng\<lparr>has_provider_hook := False\<rparr>) s)
                       else s);
             s2 = (if legacy_registerMacro (api s1)
                   then caught_warn (host_call LegacyRegisterMacro s1)
                   else s1)
         in hookCurrent s2))"

text \<open>\<open>attachEventListeners(ctx)\<close> of \<open>index.js\<close>, where the event names are \<open>ctx.event_types\<close>.\<close>

definition attachEventListeners_v1 :: "script_v1 \<Rightarrow> script_v1" where
  "attachEventListeners_v1 s =
     (if eventListenersAttached s \<or> \<not> eventSource (api s) \<or> \<not> eventTypes (api s) then s
      else s\<lparr>subscriptions := subscriptions s @
                [(CHAT_CHANGED, H_handleCharacterChange),
                 (CHARACTER_SELECTED, H_handleCharacterChange)],
             eventListenersAttached := True\<rparr>)"

text \<open>\<open>initialize(ctx)\<close> of \<open>index.js\<close>\<close>

definition initialize_v1 :: "script_v1 \<Rightarrow> error option \<times> script_v1" where
  "initialize_v1 s =
     (if initialized s then (None, s)
      else
        and_then (addInputField_v1 s) (\<lambda>s1.
        and_then (registerMacroOverrides_v1 s1) (\<lambda>s2.
          (None, (attachEventListeners_v1 s2)\<lparr>initialized := True\<rparr>))))"

text \<open>The macro-engine calls made between two states.\<close>

definition new_calls :: "'a lifecycle_scheme \<Rightarrow> 'a lifecycle_scheme \<Rightarrow> host_call list" where
  "new_calls s s' = drop (length (calls s)) (calls s')"

section \<open>Concrete scenarios\<close>

text \<open>
  Two cards of the same character, the second with the override \<open>Merrick\<close>, and a
  one-to-one chat with the second.  Its one message carries no avatar, only its author
  name.
\<close>

definition merrick_alt :: character where
  "merrick_alt =
     \<lparr>name = Some (js ''Merrick | Alt''), avatar = Some (js ''alt.png''), chatName = None\<rparr>"

definition merrick_tavern :: character where
  "merrick_tavern =
     \<lparr>name = Some (js ''Merrick | Tavern''), avatar = Some (js ''tavern.png''),
      chatName = Some (js ''Merrick'')\<rparr>"

definition tavern_msg :: message where
  "tavern_msg =
     \<lparr>name_prop = DataProp (Some (js ''Merrick | Tavern'')), msg_avatar = None,
      force_avatar = None, original_avatar = None, is_user = False, is_system = False,
      integrity = Ordinary, processed = False\<rparr>"

definition merrick_ctx :: host_context where
  "merrick_ctx =
     \<lparr>characters = Some [merrick_alt, merrick_tavern], characterId = Some 1,
      groupId = None, chat = Some [Some tavern_msg], name2 = Some (js ''Merrick | Tavern'')\<rparr>"

definition merrick_world :: world where
  "merrick_world =
     \<lparr>host = Some merrick_ctx, nameCache = Map.empty, above = [], blocks = Map.empty,
      dom_writes = 0\<rparr>"

text \<open>
  A one-to-one chat with Alice, whose override is \<open>Al\<close>: a user message and a message of
  hers, both rendered.
\<close>

definition alice :: character where
  "alice =
     \<lparr>name = Some (js ''Alice''), avatar = Some (js ''alice.png''), chatName = Some (js ''Al'')\<rparr>"

definition user_msg :: message where
  "user_msg =
     \<lparr>name_prop = DataProp (Some (js ''You'')), msg_avatar = None, force_avatar = None,
      original_avatar = None, is_user = True, is_system = False, integrity = Ordinary,
      processed = False\<rparr>"

definition alice_msg :: message where
  "alice_msg =
     \<lparr>name_prop = DataProp (Some (js ''Alice'')), msg_avatar = None, force_avatar = None,
      original_avatar = Some (js ''alice.png''), is_user = False, is_system = False,
      integrity = Ordinary, processed = False\<rparr>"

definition name_block :: "string \<Rightarrow> node" where
  "name_block s =
     Elem ''div'' [''mes'']
       [Elem ''div'' [''ch_name''] [Elem ''span'' [''name_text''] [Text (js s)]]]"

definition alice_ctx :: host_context where
  "alice_ctx =
     \<lparr>characters = Some [alice], characterId = Some 0, groupId = None,
      chat = Some [Some user_msg, Some alice_msg], name2 = Some (js ''Alice'')\<rparr>"

definition alice_world :: world where
  "alice_world =
     \<lparr>host = Some alice_ctx, nameCache = Map.empty, above = [],
      blocks = [0 \<mapsto> name_block ''You'', 1 \<mapsto> name_block ''Alice''], dom_writes = 0\<rparr>"

text \<open>
  The same chat after one run of the synchronizer and a change of the override to
  \<open>Ally\<close> in the editor.
\<close>

definition alice_shown :: message where
  "alice_shown =
     alice_msg\<lparr>name_prop := AccessorProp (js ''Al'') (Some (js ''Alice'')), processed := True\<rparr>"

definition alice_renamed :: world where
  "alice_renamed = set_override 0 (js ''Ally'') (invoke SyncChatData alice_world)"

text \<open>
  A card whose name, and so its avatar file name, holds a percent sign, and two messages:
  one with Alice's avatar under that card's name, one that refers to nobody.
\<close>

definition percent_card :: character where
  "percent_card =
     \<lparr>name = Some (js ''Bob 100%''), avatar = Some (js ''Bob 100%.png''), chatName = None\<rparr>"

definition mixed_msg :: message where
  "mixed_msg =
     \<lparr>name_prop = DataProp (Some (js ''Bob 100%'')), msg_avatar = Some (js ''alice.png''),
      force_avatar = None, original_avatar = None, is_user = False, is_system = False,
      integrity = Ordinary, processed = False\<rparr>"

definition stranger_msg :: message where
  "stranger_msg =
     \<lparr>name_prop = DataProp (Some (js ''Nobody'')), msg_avatar = Some (js ''zzz.png''),
      force_avatar = None, original_avatar = None, is_user = False, is_system = False,
      integrity = Ordinary, processed = False\<rparr>"

definition cast_ctx :: "character list \<Rightarrow> nat option \<Rightarrow> jsstring option \<Rightarrow> host_context" where
  "cast_ctx cs cid gid =
     \<lparr>characters = Some cs, characterId = cid, groupId = gid, chat = Some [], name2 = None\<rparr>"

text \<open>
  A card whose name ends in a space and has no override, in a one-to-one chat; the name
  element of its message holds an icon next to the text.
\<close>

definition spaced_bob :: character where
  "spaced_bob = \<lparr>name = Some (js ''Bob ''), avatar = Some (js ''bob.png''), chatName = None\<rparr>"

definition spaced_msg :: message where
  "spaced_msg =
     \<lparr>name_prop = DataProp (Some (js ''Bob '')), msg_avatar = None, force_avatar = None,
      original_avatar = Some (js ''bob.png''), is_user = False, is_system = False,
      integrity = Ordinary, processed = False\<rparr>"

definition icon_block :: "string \<Rightarrow> node" where
  "icon_block s =
     Elem ''div'' [''mes'']
       [Elem ''div'' [''ch_name'']
          [Elem ''span'' [''name_text''] [Elem ''i'' [''icon''] [], Text (js s)]]]"

definition spaced_world :: world where
  "spaced_world =
     \<lparr>host = Some \<lparr>characters = Some [spaced_bob], characterId = Some 0, groupId = None,
                    chat = Some [Some spaced_msg], name2 = Some (js ''Bob '')\<rparr>,
      nameCache = Map.empty, above = [], blocks = [0 \<mapsto> icon_block ''Bob ''], dom_writes = 0\<rparr>"

text \<open>
  A page on which both macro engines are present and \<open>registerMacro\<close> of the new one
  throws; the chat is the one with Alice.
\<close>

definition both_engines :: host_api where
  "both_engines =
     \<lparr>macros = Some \<lparr>has_registry = True, has_char = True, has_provider_hook = True\<rparr>,
      legacy_registerMacro = True, eventSource = True, eventTypes = True,
      throws = (\<lambda>c. c = RegisterMacro)\<rparr>"

definition page :: script where
  "page =
     \<lparr>api = both_engines, initialized = False, eventListenersAttached = False,
      tags_div = True, chat_name_input = None, input_listeners = 0, calls = [],
      subscriptions = [], warnings = 0, core = alice_world, chatObserver = False,
      chat_container = True\<rparr>"

definition page_v1 :: script_v1 where
  "page_v1 =
     \<lparr>api = both_engines, initialized = False, eventListenersAttached = False,
      tags_div = True, chat_name_input = None, input_listeners = 0, calls = [],
      subscriptions = [], warnings = 0, v1_ctx = True,
      v1_characters = Some [\<lparr>name_slot = Some (js ''Merrick | Alt Scene''),
                              originalName = None, chatNameHooked = False,
                              hchatName = Some (js ''Merrick''), hintegrity = Ordinary\<rparr>],
      v1_characterId = Some 0\<rparr>"

text \<open>
  The chat with Alice before any run of the synchronizer, her override changed to
  \<open>Ally\<close>; and a group chat whose one message refers to nobody in the cast.
\<close>

definition alice_fresh :: world where
  "alice_fresh = set_override 0 (js ''Ally'') alice_world"

definition stranger_world :: world where
  "stranger_world =
     \<lparr>host = Some \<lparr>characters = Some [alice], characterId = None,
                    groupId = Some (js ''cast''), chat = Some [Some stranger_msg],
                    name2 = None\<rparr>,
      nameCache = Map.empty, above = [], blocks = [0 \<mapsto> name_block ''Nobody''],
      dom_writes = 0\<rparr>"

text \<open>
  Pages of \<open>index.js\<close> on a host whose macro engines never throw: one where the host has
  frozen the character object, one where the context has a \<open>characterId\<close> and no
  \<open>characters\<close>.
\<close>

definition quiet_engines :: host_api where
  "quiet_engines = both_engines\<lparr>throws := (\<lambda>c. False)\<rparr>"

definition page_v1_frozen :: script_v1 where
  "page_v1_frozen =
     page_v1\<lparr>api := quiet_engines,
             v1_characters := Some [\<lparr>name_slot = Some (js ''Merrick | Alt Scene''),
                                     originalName = None, chatNameHooked = False,
                                     hchatName = Some (js ''Merrick''), hintegrity = Frozen\<rparr>]\<rparr>"

definition page_v1_no_cast :: script_v1 where
  "page_v1_no_cast = page_v1\<lparr>api := quiet_engines, v1_characters := None\<rparr>"

lemmas scenario_defs = merrick_alt_def merrick_tavern_def tavern_msg_def merrick_ctx_def
  merrick_world_def alice_def user_msg_def alice_msg_def name_block_def alice_ctx_def
  alice_world_def alice_shown_def alice_renamed_def percent_card_def mixed_msg_def
  stranger_msg_def cast_ctx_def spaced_bob_def spaced_msg_def icon_block_def spaced_world_def
  alice_fresh_def stranger_world_def

text \<open>The equations that evaluate the model on a concrete state.\<close>

lemmas eval_defs = js_def trim_def is_ws_def js_or_def opt_trim_def read_name_def write_name_def
  applyPersistentName_def getChatName_def getCharacterForMessage_def normalizeAvatar_def
  match_avatar_def match_original_def match_name_def fallback_def or_else_def exact_name_def
  fuzzy_name_def at_index_def cacheKey_def lookup_name_def sync_message_def sync_name2_def
  syncChatData_def updateAllNames_def updateUIName_msg_def updateUIName_def
  applyNameOverrideToElement_def selectors_def last_segment_def before_query_def seq_len_def
  utf16_def is_cont_def message_at_def writeExtensionField_def set_override_def Let_def
  transcript_def character_at_def avatar_ref_def author_name_def

lemmas lifecycle_defs = both_engines_def page_def page_v1_def host_call_def and_then_def
  set_has_char_def getSelectedCharacter_def loadChatNameToField_def addInputField_def
  register_new_def caught_warn_def caught_def registerMacroOverrides_def
  attachEventListeners_def setupChatObserver_def refresh_def initialize_def
  getCurrentCharacter_def loadChatNameToField_v1_def addInputField_v1_def hookCurrent_def
  hookCharacterName_def hname_def registerMacroOverrides_v1_def attachEventListeners_v1_def
  initialize_v1_def new_calls_def quiet_engines_def page_v1_frozen_def page_v1_no_cast_def

section \<open>Override resolution\<close>

text \<open>
  C1.  The resolved display name of a character is the trimmed override when the stored
  override is not blank after trimming, and the card name when the override is absent,
  empty or only whitespace (the empty string when the card has no name).  This holds for
  \<open>getChatName\<close> of the current script and for the first version, where the card name
  is what the hooked \<open>name\<close> property yields to a reader outside the macro engine.
\<close>

theorem getChatName_override_or_default:
  "getChatName (Some c) =
     (case chatName c of
        None \<Rightarrow> or_empty (name c)
      | Some ov \<Rightarrow> if trim ov \<noteq> [] then trim ov else or_empty (name c))
   \<and> (chatNameHooked h \<or> \<not> truthy (originalName h) \<longrightarrow>
        getChatName_v1 fm (Some h) =
          (case hchatName h of
             None \<Rightarrow> or_empty (hname False h)
           | Some ov \<Rightarrow> if trim ov \<noteq> [] then trim ov else or_empty (hname False h)))"
  by (cases "name c"; cases "originalName h"; cases "name_slot h")
     (auto simp: getChatName_def getChatName_v1_def js_or_def opt_trim_def hname_def
           split: option.splits)

theorem getChatName_override_or_default_witness:
  "getChatName (Some \<lparr>name = Some (js ''Merrick | Alt Scene''), avatar = Some (js ''m.png''),
                       chatName = Some (js '' Merrick '')\<rparr>) = js ''Merrick''
   \<and> getChatName (Some \<lparr>name = Some (js ''Merrick | Alt Scene''), avatar = Some (js ''m.png''),
                       chatName = Some (js ''  '')\<rparr>) = js ''Merrick | Alt Scene''
   \<and> getChatName_v1 True (Some \<lparr>name_slot = None, originalName = Some (js ''Merrick | Alt Scene''),
                       chatNameHooked = True, hchatName = Some (js ''Merrick''),
                hintegrity = Ordinary\<rparr>) = js ''Merrick''
   \<and> getChatName_v1 True (Some \<lparr>name_slot = Some (js ''Merrick | Alt Scene''), originalName = None,
                       chatNameHooked = False, hchatName = None, hintegrity = Ordinary\<rparr>) = js ''Merrick | Alt Scene''"
  using getChatName_override_or_default
          [of "\<lparr>name = Some (js ''Merrick | Alt Scene''), avatar = Some (js ''m.png''),
                chatName = Some (js '' Merrick '')\<rparr>"
              "\<lparr>name_slot = None, originalName = Some (js ''Merrick | Alt Scene''),
                chatNameHooked = True, hchatName = Some (js ''Merrick''),
                hintegrity = Ordinary\<rparr>" True]
        getChatName_override_or_default
          [of "\<lparr>name = Some (js ''Merrick | Alt Scene''), avatar = Some (js ''m.png''),
                chatName = Some (js ''  '')\<rparr>"
              "\<lparr>name_slot = Some (js ''Merrick | Alt Scene''), originalName = None,
                chatNameHooked = False, hchatName = None, hintegrity = Ordinary\<rparr>" True]
  by (simp add: js_def trim_def is_ws_def hname_def)

section \<open>The installed name property\<close>

lemma installed_shape:
  assumes "\<not> processed m" and "applyPersistentName m cn = Inr m'" and "processed m'"
  shows "cn \<noteq> [] \<and> integrity m = Ordinary \<and>
         m' = m\<lparr>name_prop := AccessorProp cn (read_name m), processed := True\<rparr>"
  using assms
  by (auto simp: applyPersistentName_def write_name_def Let_def split: if_splits name_prop.splits)

lemma run_ops_accessor:
  "processed m \<Longrightarrow> name_prop m = AccessorProp cn orig \<Longrightarrow>
   run_ops xs m = Inr (m\<lparr>name_prop := AccessorProp cn (assigned xs orig)\<rparr>)"
proof (induction xs arbitrary: m orig)
  case Nil
  then show ?case by simp
next
  case (Cons x xs)
  show ?case
  proof (cases x)
    case (Assign v)
    have "run_op x m = Inr (m\<lparr>name_prop := AccessorProp cn v\<rparr>)"
      using Cons.prems Assign by (simp add: write_name_def)
    moreover have "run_ops xs (m\<lparr>name_prop := AccessorProp cn v\<rparr>)
        = Inr (m\<lparr>name_prop := AccessorProp cn v\<rparr>\<lparr>name_prop := AccessorProp cn (assigned xs v)\<rparr>)"
      using Cons.prems by (intro Cons.IH) simp_all
    ultimately show ?thesis using Assign by simp
  next
    case (Apply c2)
    have "run_op x m = Inr m"
      using Cons.prems Apply by (simp add: applyPersistentName_def)
    then show ?thesis using Cons.IH[OF Cons.prems] Apply by simp
  qed
qed

text \<open>
  C10.  Once \<open>applyPersistentName\<close> has installed the accessor on a message (the message
  was not in \<open>processedMessages\<close> before the call and is afterwards), the chat name is not
  empty, a read of the name field returns it, and whatever sequence of host assignments
  and further \<open>applyPersistentName\<close> calls follows, every one succeeds, a read still
  returns that chat name, and the assignments have only replaced the hidden original
  value.
\<close>

theorem installed_name_absorbs_writes:
  assumes "\<not> processed m" and "applyPersistentName m cn = Inr m'" and "processed m'"
  shows "cn \<noteq> [] \<and> read_name m' = Some cn \<and>
         (\<exists>m''. run_ops xs m' = Inr m'' \<and> read_name m'' = Some cn \<and>
                name_prop m'' = AccessorProp cn (assigned xs (read_name m)))"
proof -
  from installed_shape[OF assms]
  have cn: "cn \<noteq> []"
    and m': "m' = m\<lparr>name_prop := AccessorProp cn (read_name m), processed := True\<rparr>"
    by simp_all
  have p: "processed m'" and np: "name_prop m' = AccessorProp cn (read_name m)"
    using m' by simp_all
  from run_ops_accessor[OF p np, of xs] cn m'
  show ?thesis by (simp add: read_name_def js_or_def)
qed

theorem installed_name_absorbs_writes_witness:
  "\<not> processed tavern_msg \<and>
   applyPersistentName tavern_msg (js ''Merrick'') =
     Inr (tavern_msg\<lparr>name_prop := AccessorProp (js ''Merrick'') (Some (js ''Merrick | Tavern'')),
                     processed := True\<rparr>) \<and>
   (\<exists>m''. run_ops [Assign (Some (js ''Host'')), Apply (js ''Other''), Assign None]
            (tavern_msg\<lparr>name_prop := AccessorProp (js ''Merrick'') (Some (js ''Merrick | Tavern'')),
                     processed := True\<rparr>) = Inr m'' \<and>
          read_name m'' = Some (js ''Merrick'') \<and>
          name_prop m'' = AccessorProp (js ''Merrick'') None)"
proof -
  let ?m' = "tavern_msg\<lparr>name_prop := AccessorProp (js ''Merrick'') (Some (js ''Merrick | Tavern'')),
                     processed := True\<rparr>"
  have a: "\<not> processed tavern_msg" by (simp add: tavern_msg_def)
  have b: "applyPersistentName tavern_msg (js ''Merrick'') = Inr ?m'"
    by (simp add: tavern_msg_def applyPersistentName_def read_name_def js_def)
  have c: "processed ?m'" by simp
  have d: "read_name tavern_msg = Some (js ''Merrick | Tavern'')"
    by (simp add: tavern_msg_def read_name_def)
  from installed_name_absorbs_writes[OF a b c,
         of "[Assign (Some (js ''Host'')), Apply (js ''Other''), Assign None]"]
  show ?thesis using a b d by simp
qed

text \<open>
  C5, as the code has it.  Installing the override keeps the author name the field had
  in the accessor's private variable and changes no other field of the message; a later
  \<open>applyPersistentName\<close> leaves the message as it is.  But no read returns the kept
  name: a read of the field yields the chat name.
\<close>

theorem override_keeps_original_hidden:
  assumes "\<not> processed m" and "applyPersistentName m cn = Inr m'" and "processed m'"
  shows "name_prop m' = AccessorProp cn (read_name m) \<and>
         read_name m' = Some cn \<and>
         applyPersistentName m' cn2 = Inr m' \<and>
         m'\<lparr>name_prop := name_prop m, processed := False\<rparr> = m"
proof -
  from installed_shape[OF assms]
  have cn: "cn \<noteq> []"
    and m': "m' = m\<lparr>name_prop := AccessorProp cn (read_name m), processed := True\<rparr>"
    by simp_all
  show ?thesis
    using cn assms(1) by (simp add: m' read_name_def js_or_def applyPersistentName_def)
qed

theorem override_keeps_original_hidden_witness:
  "\<not> processed tavern_msg \<and>
   applyPersistentName tavern_msg (js ''Merrick'') =
     Inr (tavern_msg\<lparr>name_prop := AccessorProp (js ''Merrick'') (Some (js ''Merrick | Tavern'')),
                     processed := True\<rparr>) \<and>
   read_name (tavern_msg\<lparr>name_prop := AccessorProp (js ''Merrick'') (Some (js ''Merrick | Tavern'')),
                     processed := True\<rparr>) = Some (js ''Merrick'')"
proof -
  let ?m' = "tavern_msg\<lparr>name_prop := AccessorProp (js ''Merrick'') (Some (js ''Merrick | Tavern'')),
                     processed := True\<rparr>"
  have a: "\<not> processed tavern_msg" by (simp add: tavern_msg_def)
  have b: "applyPersistentName tavern_msg (js ''Merrick'') = Inr ?m'"
    by (simp add: tavern_msg_def applyPersistentName_def read_name_def js_def)
  have c: "processed ?m'" by simp
  from override_keeps_original_hidden[OF a b c, of "[]"]
  have r: "read_name ?m' = Some (js ''Merrick'')" by blast
  show ?thesis using a b r by blast
qed

text \<open>
  The claim as the specification words it fails on the chat with the second card: after one run of
  the synchronizer the field of the message reads \<open>Merrick\<close>, the author name
  \<open>Merrick | Tavern\<close> is returned by no read, and the resolver, which found the second
  card for the message before the run, finds the first card after it.
\<close>

theorem override_hides_original_counterexample:
  "map_option read_name (message_at merrick_world 0) = Some (Some (js ''Merrick | Tavern'')) \<and>
   getCharacterForMessage (host merrick_world) (message_at merrick_world 0)
     = Inr (Some merrick_tavern) \<and>
   fst (syncChatData merrick_world) = None \<and>
   map_option read_name (message_at (snd (syncChatData merrick_world)) 0)
     = Some (Some (js ''Merrick'')) \<and>
   getCharacterForMessage (host (snd (syncChatData merrick_world)))
       (message_at (snd (syncChatData merrick_world)) 0)
     = Inr (Some merrick_alt)"
  by (simp add: scenario_defs eval_defs)

section \<open>What the synchronizer leaves alone\<close>

lemma updateUIName_msg_frame:
  "host (updateUIName_msg i mo w) = host w \<and> above (updateUIName_msg i mo w) = above w \<and>
   nameCache (updateUIName_msg i mo w) = nameCache w \<and>
   (j \<noteq> i \<longrightarrow> blocks (updateUIName_msg i mo w) j = blocks w j)"
  by (auto simp: updateUIName_msg_def split: option.splits prod.splits)

lemma updateUIName_msg_untouched: "untouched mo \<Longrightarrow> updateUIName_msg i mo w = w"
  by (auto simp: updateUIName_msg_def untouched_def split: option.splits)

lemma lookup_name_frame:
  "lookup_name ctx m w = Inr (cn, w1) \<Longrightarrow>
   host w1 = host w \<and> above w1 = above w \<and> blocks w1 = blocks w \<and> dom_writes w1 = dom_writes w"
  by (auto simp: lookup_name_def Let_def split: option.splits sum.splits if_splits)

lemma sync_message_untouched: "untouched mo \<Longrightarrow> sync_message ctx i mo w = (None, mo, w)"
  by (auto simp: sync_message_def untouched_def split: option.splits)

lemma sync_message_frame:
  assumes "sync_message ctx i mo w = (e, mo', w')"
  shows "host w' = host w \<and> above w' = above w \<and> (j \<noteq> i \<longrightarrow> blocks w' j = blocks w j)"
proof (cases mo)
  case None
  with assms show ?thesis by (simp add: sync_message_def)
next
  case (Some m)
  show ?thesis
  proof (cases "is_user m \<or> is_system m")
    case True
    with assms Some show ?thesis by (simp add: sync_message_def)
  next
    case False
    show ?thesis
    proof (cases "lookup_name ctx m w")
      case (Inl err)
      with assms Some False show ?thesis by (simp add: sync_message_def)
    next
      case (Inr p)
      obtain cn w1 where p: "p = (cn, w1)" by (cases p)
      note fr = lookup_name_frame[OF Inr[unfolded p]]
      show ?thesis
        using assms Some False Inr p fr updateUIName_msg_frame[of i _ w1 j]
        by (auto simp: sync_message_def split: if_splits sum.splits)
    qed
  qed
qed

lemma sync_loop_frame:
  "sync_loop ctx i msgs w = (e, msgs', w') \<Longrightarrow>
   host w' = host w \<and> above w' = above w \<and> length msgs' = length msgs \<and>
   (\<forall>j. (j < i \<or> i + length msgs \<le> j \<or> untouched (msgs ! (j - i))) \<longrightarrow> blocks w' j = blocks w j) \<and>
   (\<forall>k < length msgs. untouched (msgs ! k) \<longrightarrow> msgs' ! k = msgs ! k)"
proof (induction msgs arbitrary: i w e msgs' w')
  case Nil
  then show ?case by simp
next
  case (Cons mo rest)
  obtain e1 mo1 w1 where s1: "sync_message ctx i mo w = (e1, mo1, w1)"
    by (cases "sync_message ctx i mo w") auto
  note f1 = sync_message_frame[OF s1]
  have u1: "untouched mo \<Longrightarrow> mo1 = mo \<and> w1 = w"
    using s1 sync_message_untouched[of mo ctx i w] by simp
  show ?case
  proof (cases e1)
    case (Some err)
    with Cons.prems s1 have r: "e = Some err" "msgs' = mo1 # rest" "w' = w1" by auto
    show ?thesis
      unfolding r using f1 u1
      by (auto simp: nth_Cons split: nat.splits)
  next
    case None
    obtain e2 rest2 w2 where s2: "sync_loop ctx (Suc i) rest w1 = (e2, rest2, w2)"
      by (cases "sync_loop ctx (Suc i) rest w1") auto
    with Cons.prems s1 None have r: "e = e2" "msgs' = mo1 # rest2" "w' = w2" by auto
    note ih = Cons.IH[OF s2]
    have blocks: "blocks w2 j = blocks w j"
      if "j < i \<or> i + length (mo # rest) \<le> j \<or> untouched ((mo # rest) ! (j - i))" for j
    proof (cases "j = i")
      case True
      with that have "untouched mo" by auto
      with u1 have "w1 = w" by simp
      moreover have "blocks w2 j = blocks w1 j" using ih True by auto
      ultimately show ?thesis by simp
    next
      case False
      have "blocks w1 j = blocks w j" using f1 False by simp
      moreover have "blocks w2 j = blocks w1 j"
      proof -
        have "j < Suc i \<or> Suc i + length rest \<le> j \<or> untouched (rest ! (j - Suc i))"
        proof (cases "i < j")
          case True
          then obtain k where k: "j - i = Suc k" by (cases "j - i") auto
          then have "j - Suc i = k" by simp
          with that True k show ?thesis by auto
        next
          case False
          with \<open>j \<noteq> i\<close> show ?thesis by simp
        qed
        then show ?thesis using ih by blast
      qed
      ultimately show ?thesis by simp
    qed
    show ?thesis
      unfolding r using ih f1 u1 blocks
      by (auto simp: nth_Cons split: nat.splits)
  qed
qed


lemma syncChatData_untouched:
  assumes "message_at w i = Some m" and "is_user m \<or> is_system m"
  shows "message_at (snd (syncChatData w)) i = Some m \<and>
         blocks (snd (syncChatData w)) i = blocks w i"
proof -
  from assms(1) obtain ctx msgs where h: "host w = Some ctx" and c: "chat ctx = Some msgs"
    and i: "i < length msgs" and mi: "msgs ! i = Some m"
    by (auto simp: message_at_def at_index_def split: option.splits if_splits)
  have u: "untouched (msgs ! i)" using mi assms(2) by (simp add: untouched_def)
  show ?thesis
  proof (cases "sync_name2 ctx")
    case (Inl err)
    then show ?thesis using h c assms(1) by (simp add: syncChatData_def)
  next
    case (Inr ctx1)
    obtain e msgs' w' where s: "sync_loop ctx1 0 msgs w = (e, msgs', w')"
      by (cases "sync_loop ctx1 0 msgs w") auto
    from sync_loop_frame[OF s] i u
    have "length msgs' = length msgs" "msgs' ! i = msgs ! i" "blocks w' i = blocks w i"
      by auto
    then show ?thesis
      using h c Inr s i mi by (simp add: syncChatData_def message_at_def at_index_def)
  qed
qed

lemma updateUIName_untouched:
  assumes "message_at w i = Some m" and "is_user m \<or> is_system m"
  shows "message_at (updateUIName j w) i = Some m \<and> blocks (updateUIName j w) i = blocks w i"
proof (cases "j = i")
  case True
  have "updateUIName i w = w"
    using assms updateUIName_msg_untouched[of "Some m" i w]
    by (auto simp: updateUIName_def message_at_def untouched_def split: option.splits)
  with True assms(1) show ?thesis by simp
next
  case False
  have "host (updateUIName j w) = host w \<and> blocks (updateUIName j w) i = blocks w i"
    using updateUIName_msg_frame[of j _ w i] False
    by (auto simp: updateUIName_def split: option.splits)
  then show ?thesis using assms(1) by (simp add: message_at_def)
qed

lemma invoke_untouched:
  assumes "message_at w i = Some m" and "is_user m \<or> is_system m"
  shows "message_at (invoke x w) i = Some m \<and> blocks (invoke x w) i = blocks w i"
proof (cases x)
  case SyncChatData
  then show ?thesis using syncChatData_untouched[OF assms] by simp
next
  case UpdateAllNames
  have "message_at (w\<lparr>nameCache := (\<lambda>k. None)\<rparr>) i = Some m"
    using assms(1) by (simp add: message_at_def)
  from syncChatData_untouched[OF this assms(2)] UpdateAllNames
  show ?thesis by (simp add: updateAllNames_def)
next
  case (UpdateUIName j)
  then show ?thesis using updateUIName_untouched[OF assms] by simp
qed

text \<open>
  C6.  A message of the transcript that is flagged as user-authored or system-authored is
  the same object state after any sequence of runs of the synchronizer, of the full
  refresh and of the DOM updater (for any \<open>mesid\<close>), and the element rendered for it is
  the same as before.
\<close>

theorem user_and_system_messages_untouched:
  assumes "message_at w i = Some m" and "is_user m \<or> is_system m"
  shows "message_at (invoke_all xs w) i = Some m \<and> blocks (invoke_all xs w) i = blocks w i"
  using assms(1)
proof (induction xs arbitrary: w)
  case Nil
  then show ?case by simp
next
  case (Cons x xs)
  from invoke_untouched[OF Cons.prems assms(2), of x]
  have a: "message_at (invoke x w) i = Some m" and b: "blocks (invoke x w) i = blocks w i"
    by simp_all
  from Cons.IH[OF a] b show ?case by simp
qed


theorem user_and_system_messages_untouched_witness:
  "message_at alice_world 0 = Some user_msg \<and> is_user user_msg \<and>
   message_at (invoke_all [SyncChatData, UpdateUIName 0, UpdateUIName 1, UpdateAllNames]
                 alice_world) 0 = Some user_msg \<and>
   blocks (invoke_all [SyncChatData, UpdateUIName 0, UpdateUIName 1, UpdateAllNames]
             alice_world) 0 = Some (name_block ''You'')"
proof -
  have a: "message_at alice_world 0 = Some user_msg"
    by (simp add: alice_world_def alice_ctx_def message_at_def at_index_def)
  have b: "is_user user_msg \<or> is_system user_msg" by (simp add: user_msg_def)
  have c: "blocks alice_world 0 = Some (name_block ''You'')" by (simp add: alice_world_def)
  from user_and_system_messages_untouched[OF a b,
         of "[SyncChatData, UpdateUIName 0, UpdateUIName 1, UpdateAllNames]"]
  show ?thesis using a c by (simp add: user_msg_def)
qed

section \<open>The cache during a run\<close>

lemma lookup_name_cache:
  assumes "lookup_name ctx m w = Inr (cn, w1)"
  shows "(nameCache w (cacheKey m) = Some cn \<or>
          (nameCache w (cacheKey m) = None \<and>
           (\<exists>ch. getCharacterForMessage (Some ctx) (Some m) = Inr ch \<and> cn = getChatName ch))) \<and>
         nameCache w1 = (if truthy (cacheKey m) then (nameCache w)(cacheKey m \<mapsto> cn)
                         else nameCache w)"
  using assms
  by (auto simp: lookup_name_def Let_def fun_upd_idem split: option.splits sum.splits if_splits)

lemma sync_message_cache:
  assumes "sync_message ctx i (Some m) w = (e, mo', w')" and "\<not> is_user m" and "\<not> is_system m"
  shows "(\<forall>k v. nameCache w k = Some v \<longrightarrow> nameCache w' k = Some v) \<and>
         (\<forall>k. k \<noteq> cacheKey m \<longrightarrow> nameCache w' k = nameCache w k)"
proof (cases "lookup_name ctx m w")
  case (Inl err)
  with assms show ?thesis by (simp add: sync_message_def)
next
  case (Inr p)
  obtain cn w1 where p: "p = (cn, w1)" by (cases p)
  from lookup_name_cache[OF Inr[unfolded p]]
  have c1: "(\<forall>k v. nameCache w k = Some v \<longrightarrow> nameCache w1 k = Some v) \<and>
            (\<forall>k. k \<noteq> cacheKey m \<longrightarrow> nameCache w1 k = nameCache w k)"
    by auto
  have "nameCache w' = nameCache w1"
    using assms Inr p updateUIName_msg_frame[of i _ w1 i]
    by (auto simp: sync_message_def split: if_splits sum.splits)
  with c1 show ?thesis by simp
qed

lemma sync_message_cache_any:
  assumes "sync_message ctx i mo w = (e, mo', w')"
  shows "(\<forall>k v. nameCache w k = Some v \<longrightarrow> nameCache w' k = Some v) \<and>
         (\<forall>k. (case mo of None \<Rightarrow> True
                | Some m \<Rightarrow> is_user m \<or> is_system m \<or> cacheKey m \<noteq> k) \<longrightarrow>
              nameCache w' k = nameCache w k)"
proof (cases "untouched mo")
  case True
  with assms sync_message_untouched[of mo ctx i w] show ?thesis by simp
next
  case False
  then obtain m where m: "mo = Some m" "\<not> is_user m" "\<not> is_system m"
    by (auto simp: untouched_def split: option.splits)
  from sync_message_cache[OF assms[unfolded m(1)] m(2,3)] m show ?thesis by auto
qed

lemma sync_loop_cache:
  "sync_loop ctx i msgs w = (e, msgs', w') \<Longrightarrow>
   (\<forall>k v. nameCache w k = Some v \<longrightarrow> nameCache w' k = Some v) \<and>
   (\<forall>k. key_unseen msgs k \<longrightarrow> nameCache w' k = nameCache w k)"
proof (induction msgs arbitrary: i w e msgs' w')
  case Nil
  then show ?case by simp
next
  case (Cons mo rest)
  obtain e1 mo1 w1 where s1: "sync_message ctx i mo w = (e1, mo1, w1)"
    by (cases "sync_message ctx i mo w") auto
  note c1 = sync_message_cache_any[OF s1]
  show ?case
  proof (cases e1)
    case (Some err)
    with Cons.prems s1 have "w' = w1" by auto
    with c1 show ?thesis by auto
  next
    case None
    obtain e2 rest2 w2 where s2: "sync_loop ctx (Suc i) rest w1 = (e2, rest2, w2)"
      by (cases "sync_loop ctx (Suc i) rest w1") auto
    with Cons.prems s1 None have "w' = w2" by auto
    with c1 Cons.IH[OF s2] show ?thesis by auto
  qed
qed

lemma sync_message_result:
  assumes "sync_message ctx i (Some m) w = (None, mo', w')" and "\<not> is_user m" and "\<not> is_system m"
    and "truthy (cacheKey m)"
  shows "\<exists>cn. nameCache w' (cacheKey m) = Some cn \<and>
           (nameCache w (cacheKey m) = None \<longrightarrow>
              (\<exists>ch. getCharacterForMessage (Some ctx) (Some m) = Inr ch \<and> cn = getChatName ch)) \<and>
           (cn = [] \<longrightarrow> mo' = Some m) \<and>
           (cn \<noteq> [] \<longrightarrow> (\<exists>m'. applyPersistentName m cn = Inr m' \<and> mo' = Some m'))"
proof (cases "lookup_name ctx m w")
  case (Inl err)
  with assms show ?thesis by (simp add: sync_message_def)
next
  case (Inr p)
  obtain cn w1 where p: "p = (cn, w1)" by (cases p)
  note l = lookup_name_cache[OF Inr[unfolded p]]
  have nc: "nameCache w' = nameCache w1"
    using assms Inr p updateUIName_msg_frame[of i _ w1 i]
    by (auto simp: sync_message_def split: if_splits sum.splits)
  have a: "nameCache w' (cacheKey m) = Some cn" using nc l assms(4) by simp
  have b: "nameCache w (cacheKey m) = None \<longrightarrow>
      (\<exists>ch. getCharacterForMessage (Some ctx) (Some m) = Inr ch \<and> cn = getChatName ch)"
    using l by auto
  have c: "(cn = [] \<longrightarrow> mo' = Some m) \<and>
           (cn \<noteq> [] \<longrightarrow> (\<exists>m'. applyPersistentName m cn = Inr m' \<and> mo' = Some m'))"
    using assms Inr p by (auto simp: sync_message_def split: if_splits sum.splits)
  from a b c have "nameCache w' (cacheKey m) = Some cn \<and>
           (nameCache w (cacheKey m) = None \<longrightarrow>
              (\<exists>ch. getCharacterForMessage (Some ctx) (Some m) = Inr ch \<and> cn = getChatName ch)) \<and>
           (cn = [] \<longrightarrow> mo' = Some m) \<and>
           (cn \<noteq> [] \<longrightarrow> (\<exists>m'. applyPersistentName m cn = Inr m' \<and> mo' = Some m'))"
    by simp
  then show ?thesis ..
qed

lemma sync_loop_message:
  assumes "sync_loop ctx i msgs w = (None, msgs', w')" and "j < length msgs"
    and "msgs ! j = Some m" and "\<not> is_user m" and "\<not> is_system m" and "truthy (cacheKey m)"
  shows "\<exists>cn. nameCache w' (cacheKey m) = Some cn \<and>
           (nameCache w (cacheKey m) = None \<and> key_unseen (take j msgs) (cacheKey m) \<longrightarrow>
              (\<exists>ch. getCharacterForMessage (Some ctx) (Some m) = Inr ch \<and> cn = getChatName ch)) \<and>
           (cn = [] \<longrightarrow> msgs' ! j = Some m) \<and>
           (cn \<noteq> [] \<longrightarrow> (\<exists>m'. applyPersistentName m cn = Inr m' \<and> msgs' ! j = Some m'))"
  using assms(1-3)
proof (induction msgs arbitrary: i w msgs' w' j)
  case Nil
  then show ?case by simp
next
  case (Cons mo rest)
  obtain e1 mo1 w1 where s1: "sync_message ctx i mo w = (e1, mo1, w1)"
    by (cases "sync_message ctx i mo w") auto
  have e1: "e1 = None" using Cons.prems(1) s1 by (cases e1) auto
  obtain e2 rest2 w2 where s2: "sync_loop ctx (Suc i) rest w1 = (e2, rest2, w2)"
    by (cases "sync_loop ctx (Suc i) rest w1") auto
  from Cons.prems(1) s1 e1 s2 have r: "e2 = None" "msgs' = mo1 # rest2" "w' = w2" by auto
  show ?case
  proof (cases j)
    case 0
    with Cons.prems(3) have mo: "mo = Some m" by simp
    from sync_message_result[OF s1[unfolded mo e1] assms(4,5,6)]
    obtain cn where cn: "nameCache w1 (cacheKey m) = Some cn \<and>
      (nameCache w (cacheKey m) = None \<longrightarrow>
         (\<exists>ch. getCharacterForMessage (Some ctx) (Some m) = Inr ch \<and> cn = getChatName ch)) \<and>
      (cn = [] \<longrightarrow> mo1 = Some m) \<and>
      (cn \<noteq> [] \<longrightarrow> (\<exists>m'. applyPersistentName m cn = Inr m' \<and> mo1 = Some m'))" ..
    from sync_loop_cache[OF s2] cn have "nameCache w2 (cacheKey m) = Some cn" by simp
    with cn r 0 have "nameCache w' (cacheKey m) = Some cn \<and>
           (nameCache w (cacheKey m) = None \<and> key_unseen (take j (mo # rest)) (cacheKey m) \<longrightarrow>
              (\<exists>ch. getCharacterForMessage (Some ctx) (Some m) = Inr ch \<and> cn = getChatName ch)) \<and>
           (cn = [] \<longrightarrow> msgs' ! j = Some m) \<and>
           (cn \<noteq> [] \<longrightarrow> (\<exists>m'. applyPersistentName m cn = Inr m' \<and> msgs' ! j = Some m'))"
      by simp
    then show ?thesis ..
  next
    case (Suc j')
    with Cons.prems have j': "j' < length rest" "rest ! j' = Some m" by simp_all
    from Cons.IH[OF s2[unfolded r(1)] j']
    obtain cn where cn: "nameCache w2 (cacheKey m) = Some cn \<and>
      (nameCache w1 (cacheKey m) = None \<and> key_unseen (take j' rest) (cacheKey m) \<longrightarrow>
         (\<exists>ch. getCharacterForMessage (Some ctx) (Some m) = Inr ch \<and> cn = getChatName ch)) \<and>
      (cn = [] \<longrightarrow> rest2 ! j' = Some m) \<and>
      (cn \<noteq> [] \<longrightarrow> (\<exists>m'. applyPersistentName m cn = Inr m' \<and> rest2 ! j' = Some m'))" ..
    have "nameCache w (cacheKey m) = None \<and> key_unseen (take j (mo # rest)) (cacheKey m) \<longrightarrow>
          nameCache w1 (cacheKey m) = None \<and> key_unseen (take j' rest) (cacheKey m)"
      using sync_message_cache_any[OF s1] Suc by auto
    with cn r Suc have "nameCache w' (cacheKey m) = Some cn \<and>
           (nameCache w (cacheKey m) = None \<and> key_unseen (take j (mo # rest)) (cacheKey m) \<longrightarrow>
              (\<exists>ch. getCharacterForMessage (Some ctx) (Some m) = Inr ch \<and> cn = getChatName ch)) \<and>
           (cn = [] \<longrightarrow> msgs' ! j = Some m) \<and>
           (cn \<noteq> [] \<longrightarrow> (\<exists>m'. applyPersistentName m cn = Inr m' \<and> msgs' ! j = Some m'))"
      by simp
    then show ?thesis ..
  qed
qed

lemma fallback_name2: "fallback (ctx\<lparr>name2 := x\<rparr>) cs = fallback ctx cs"
  by (simp add: fallback_def split: option.splits)

lemma resolver_name2:
  "getCharacterForMessage (Some (ctx\<lparr>name2 := x\<rparr>)) mo = getCharacterForMessage (Some ctx) mo"
  by (cases mo; cases "characters ctx")
     (simp_all add: getCharacterForMessage_def fallback_name2 Let_def split: sum.splits)

lemma sync_name2_cases:
  "sync_name2 ctx = Inr ctx1 \<Longrightarrow> ctx1 = ctx \<or> (\<exists>x. ctx1 = ctx\<lparr>name2 := x\<rparr>)"
  by (auto simp: sync_name2_def Let_def split: option.splits if_splits)

lemma resolver_ignores_name2:
  assumes "sync_name2 ctx = Inr ctx1"
  shows "chat ctx1 = chat ctx \<and>
         getCharacterForMessage (Some ctx1) mo = getCharacterForMessage (Some ctx) mo"
  using sync_name2_cases[OF assms] resolver_name2[where ctx = ctx and mo = mo] by auto

lemma applyPersistentName_cases:
  assumes "applyPersistentName m cn = Inr m'"
  shows "(processed m \<longrightarrow> m' = m) \<and>
         (\<not> processed m \<and> cn \<noteq> [] \<and>
          (integrity m = Ordinary \<or> (\<exists>v. name_prop m = DataProp v)) \<longrightarrow>
            read_name m' = Some cn)"
  using assms
  by (auto simp: applyPersistentName_def write_name_def read_name_def js_or_def Let_def
      split: if_splits)

lemma syncChatData_message:
  assumes "syncChatData w = (None, w')"
    and "message_at w j = Some m" and "\<not> is_user m" and "\<not> is_system m"
    and "truthy (cacheKey m)"
  shows "\<exists>cn. nameCache w' (cacheKey m) = Some cn \<and>
           (nameCache w (cacheKey m) = None \<and> key_unseen (take j (transcript w)) (cacheKey m) \<longrightarrow>
              (\<exists>ch. getCharacterForMessage (host w) (Some m) = Inr ch \<and> cn = getChatName ch)) \<and>
           (processed m \<or> cn = [] \<longrightarrow> message_at w' j = Some m) \<and>
           (\<not> processed m \<and> cn \<noteq> [] \<and>
            (integrity m = Ordinary \<or> (\<exists>v. name_prop m = DataProp v)) \<longrightarrow>
              (\<exists>m'. message_at w' j = Some m' \<and> read_name m' = Some cn))"
proof -
  from assms(2) obtain ctx msgs where h: "host w = Some ctx" and c: "chat ctx = Some msgs"
    and j: "j < length msgs" and mj: "msgs ! j = Some m"
    by (auto simp: message_at_def at_index_def split: option.splits if_splits)
  have tr: "transcript w = msgs" using h c by (simp add: transcript_def)
  from assms(1) h c obtain ctx1 where n2: "sync_name2 ctx = Inr ctx1"
    by (cases "sync_name2 ctx") (auto simp: syncChatData_def)
  obtain e msgs' w1 where s: "sync_loop ctx1 0 msgs w = (e, msgs', w1)"
    by (cases "sync_loop ctx1 0 msgs w") auto
  from assms(1) h c n2 s have e: "e = None"
    and w': "w' = w1\<lparr>host := Some (ctx1\<lparr>chat := Some msgs'\<rparr>)\<rparr>"
    by (auto simp: syncChatData_def)
  have len: "length msgs' = length msgs" using sync_loop_frame[OF s] by simp
  have at: "message_at w' j = msgs' ! j"
    using w' len j by (simp add: message_at_def at_index_def)
  from sync_loop_message[OF s[unfolded e] j mj assms(3,4,5)]
  obtain cn where cn: "nameCache w1 (cacheKey m) = Some cn \<and>
           (nameCache w (cacheKey m) = None \<and> key_unseen (take j msgs) (cacheKey m) \<longrightarrow>
              (\<exists>ch. getCharacterForMessage (Some ctx1) (Some m) = Inr ch \<and> cn = getChatName ch)) \<and>
           (cn = [] \<longrightarrow> msgs' ! j = Some m) \<and>
           (cn \<noteq> [] \<longrightarrow> (\<exists>m'. applyPersistentName m cn = Inr m' \<and> msgs' ! j = Some m'))" ..
  have r: "getCharacterForMessage (Some ctx1) (Some m) = getCharacterForMessage (host w) (Some m)"
    using resolver_ignores_name2[OF n2] h by simp
  have p: "processed m \<or> cn = [] \<longrightarrow> message_at w' j = Some m"
    using cn at applyPersistentName_cases[of m cn] by (cases "cn = []") auto
  have q: "\<not> processed m \<and> cn \<noteq> [] \<and>
            (integrity m = Ordinary \<or> (\<exists>v. name_prop m = DataProp v)) \<longrightarrow>
              (\<exists>m'. message_at w' j = Some m' \<and> read_name m' = Some cn)"
    using cn at applyPersistentName_cases[of m cn] by auto
  have "nameCache w' (cacheKey m) = Some cn \<and>
           (nameCache w (cacheKey m) = None \<and> key_unseen (take j (transcript w)) (cacheKey m) \<longrightarrow>
              (\<exists>ch. getCharacterForMessage (host w) (Some m) = Inr ch \<and> cn = getChatName ch)) \<and>
           (processed m \<or> cn = [] \<longrightarrow> message_at w' j = Some m) \<and>
           (\<not> processed m \<and> cn \<noteq> [] \<and>
            (integrity m = Ordinary \<or> (\<exists>v. name_prop m = DataProp v)) \<longrightarrow>
              (\<exists>m'. message_at w' j = Some m' \<and> read_name m' = Some cn))"
    using cn r p q w' tr by simp
  then show ?thesis ..
qed

lemma syncChatData_cache_persists:
  "nameCache w k = Some v \<Longrightarrow> nameCache (snd (syncChatData w)) k = Some v"
proof -
  assume a: "nameCache w k = Some v"
  show ?thesis
  proof (cases "host w")
    case None
    then show ?thesis using a by (simp add: syncChatData_def)
  next
    case (Some ctx)
    show ?thesis
    proof (cases "chat ctx")
      case None
      then show ?thesis using a Some by (simp add: syncChatData_def)
    next
      case (Some msgs)
      show ?thesis
      proof (cases "sync_name2 ctx")
        case (Inl err)
        then show ?thesis using a \<open>host w = Some ctx\<close> Some by (simp add: syncChatData_def)
      next
        case (Inr ctx1)
        obtain e msgs' w1 where s: "sync_loop ctx1 0 msgs w = (e, msgs', w1)"
          by (cases "sync_loop ctx1 0 msgs w") auto
        from sync_loop_cache[OF s] a have "nameCache w1 k = Some v" by blast
        then show ?thesis
          using \<open>host w = Some ctx\<close> Some Inr s by (simp add: syncChatData_def)
      qed
    qed
  qed
qed

text \<open>
  C3, as the code has it.  After the override has changed, a full refresh (the cache
  cleared, then the synchronizer) that runs to its end without a throw leaves, for every
  character-authored message with a truthy cache key, a cached name under that key; for
  the first message that carries the key it is the name resolved from the state as it is
  now, the new override included, and the empty name when the resolver finds no character.
  A message on which an override was installed before is left exactly as it was, the name
  installed first included, and so is every message whose cached name is empty.  A message
  on which none was installed and whose cached name is not empty reads that name
  afterwards, when it is an ordinary object or its \<open>name\<close> is a plain data property.
  Without the clearing, every cached value persists through a run.
\<close>

theorem refresh_recomputes_cache_not_installed_names:
  assumes "updateAllNames w = (None, w')"
    and "message_at w j = Some m" and "\<not> is_user m" and "\<not> is_system m"
    and "truthy (cacheKey m)"
  shows "(\<exists>cn. nameCache w' (cacheKey m) = Some cn \<and>
           (key_unseen (take j (transcript w)) (cacheKey m) \<longrightarrow>
              (\<exists>ch. getCharacterForMessage (host w) (Some m) = Inr ch \<and> cn = getChatName ch)) \<and>
           (processed m \<or> cn = [] \<longrightarrow> message_at w' j = Some m) \<and>
           (\<not> processed m \<and> cn \<noteq> [] \<and>
            (integrity m = Ordinary \<or> (\<exists>v. name_prop m = DataProp v)) \<longrightarrow>
              (\<exists>m'. message_at w' j = Some m' \<and> read_name m' = Some cn))) \<and>
         (\<forall>k v. nameCache w k = Some v \<longrightarrow> nameCache (snd (syncChatData w)) k = Some v)"
proof -
  let ?w0 = "w\<lparr>nameCache := (\<lambda>k. None)\<rparr>"
  have s: "syncChatData ?w0 = (None, w')" using assms(1) by (simp add: updateAllNames_def)
  have m: "message_at ?w0 j = Some m" using assms(2) by (simp add: message_at_def)
  from syncChatData_message[OF s m assms(3,4,5)]
  have "\<exists>cn. nameCache w' (cacheKey m) = Some cn \<and>
           (key_unseen (take j (transcript w)) (cacheKey m) \<longrightarrow>
              (\<exists>ch. getCharacterForMessage (host w) (Some m) = Inr ch \<and> cn = getChatName ch)) \<and>
           (processed m \<or> cn = [] \<longrightarrow> message_at w' j = Some m) \<and>
           (\<not> processed m \<and> cn \<noteq> [] \<and>
            (integrity m = Ordinary \<or> (\<exists>v. name_prop m = DataProp v)) \<longrightarrow>
              (\<exists>m'. message_at w' j = Some m' \<and> read_name m' = Some cn))"
    by (simp add: transcript_def)
  then show ?thesis using syncChatData_cache_persists[of w] by simp
qed

theorem refresh_recomputes_cache_not_installed_names_witness:
  "fst (updateAllNames alice_renamed) = None \<and>
   message_at alice_renamed 1 = Some alice_shown \<and> processed alice_shown \<and>
   nameCache (snd (updateAllNames alice_renamed)) (cacheKey alice_shown) = Some (js ''Ally'') \<and>
   message_at (snd (updateAllNames alice_renamed)) 1 = Some alice_shown \<and>
   nameCache (snd (syncChatData alice_renamed)) (Some (js ''alice.png'')) = Some (js ''Al'') \<and>
   fst (updateAllNames alice_fresh) = None \<and>
   message_at alice_fresh 1 = Some alice_msg \<and> \<not> processed alice_msg \<and>
   nameCache (snd (updateAllNames alice_fresh)) (cacheKey alice_msg) = Some (js ''Ally'') \<and>
   (\<exists>m'. message_at (snd (updateAllNames alice_fresh)) 1 = Some m' \<and>
         read_name m' = Some (js ''Ally'')) \<and>
   fst (updateAllNames stranger_world) = None \<and>
   message_at stranger_world 0 = Some stranger_msg \<and> \<not> processed stranger_msg \<and>
   nameCache (snd (updateAllNames stranger_world)) (cacheKey stranger_msg) = Some [] \<and>
   message_at (snd (updateAllNames stranger_world)) 0 = Some stranger_msg"
proof -
  have a0: "fst (updateAllNames alice_renamed) = None"
    by (simp add: scenario_defs eval_defs)
  have a: "updateAllNames alice_renamed = (None, snd (updateAllNames alice_renamed))"
    using a0 by (simp add: prod_eq_iff)
  have b: "message_at alice_renamed 1 = Some alice_shown"
    by (simp add: scenario_defs eval_defs)
  have c: "\<not> is_user alice_shown" "\<not> is_system alice_shown" "truthy (cacheKey alice_shown)"
    "processed alice_shown"
    by (simp_all add: scenario_defs eval_defs)
  have d: "nameCache alice_renamed (Some (js ''alice.png'')) = Some (js ''Al'')"
    by (simp add: scenario_defs eval_defs)
  have e: "nameCache (snd (updateAllNames alice_renamed)) (cacheKey alice_shown) = Some (js ''Ally'')"
    by (simp add: scenario_defs eval_defs)
  from refresh_recomputes_cache_not_installed_names[OF a b c(1,2,3)] c(4) d
  have r1: "message_at (snd (updateAllNames alice_renamed)) 1 = Some alice_shown"
    and r2: "nameCache (snd (syncChatData alice_renamed)) (Some (js ''alice.png'')) = Some (js ''Al'')"
    by blast+
  have f0: "fst (updateAllNames alice_fresh) = None"
    by (simp add: scenario_defs eval_defs)
  have f: "updateAllNames alice_fresh = (None, snd (updateAllNames alice_fresh))"
    using f0 by (simp add: prod_eq_iff)
  have g: "message_at alice_fresh 1 = Some alice_msg"
    by (simp add: scenario_defs eval_defs)
  have h: "\<not> is_user alice_msg" "\<not> is_system alice_msg" "truthy (cacheKey alice_msg)"
    "\<not> processed alice_msg" "integrity alice_msg = Ordinary"
    by (simp_all add: scenario_defs eval_defs)
  have k: "nameCache (snd (updateAllNames alice_fresh)) (cacheKey alice_msg) = Some (js ''Ally'')"
    by (simp add: scenario_defs eval_defs)
  have k': "js ''Ally'' \<noteq> []" by (simp add: js_def)
  from refresh_recomputes_cache_not_installed_names[OF f g h(1,2,3)] h(4,5) k k'
  have r3: "\<exists>m'. message_at (snd (updateAllNames alice_fresh)) 1 = Some m' \<and>
                 read_name m' = Some (js ''Ally'')"
    by auto
  have p0: "fst (updateAllNames stranger_world) = None"
    by (simp add: scenario_defs eval_defs)
  have p: "updateAllNames stranger_world = (None, snd (updateAllNames stranger_world))"
    using p0 by (simp add: prod_eq_iff)
  have q: "message_at stranger_world 0 = Some stranger_msg"
    by (simp add: scenario_defs eval_defs)
  have s: "\<not> is_user stranger_msg" "\<not> is_system stranger_msg" "truthy (cacheKey stranger_msg)"
    "\<not> processed stranger_msg"
    by (simp_all add: scenario_defs eval_defs)
  have t: "nameCache (snd (updateAllNames stranger_world)) (cacheKey stranger_msg) = Some []"
    by (simp add: scenario_defs eval_defs)
  from refresh_recomputes_cache_not_installed_names[OF p q s(1,2,3)] t
  have r4: "message_at (snd (updateAllNames stranger_world)) 0 = Some stranger_msg"
    by auto
  from a0 b c(4) e r1 r2 f0 g h(4) k r3 p0 q s(4) t r4 show ?thesis by simp
qed

text \<open>
  The claim as the specification words it fails on the chat with Alice: her override is
  now \<open>Ally\<close>, the refresh runs to its end and caches \<open>Ally\<close>, and yet the name field of
  her message and the rendered name still read \<open>Al\<close>.
\<close>

theorem stale_name_counterexample:
  "map_option chatName (character_at alice_renamed 0) = Some (Some (js ''Ally'')) \<and>
   fst (updateAllNames alice_renamed) = None \<and>
   nameCache (snd (updateAllNames alice_renamed)) (Some (js ''alice.png'')) = Some (js ''Ally'') \<and>
   map_option read_name (message_at (snd (updateAllNames alice_renamed)) 1)
     = Some (Some (js ''Al'')) \<and>
   blocks (snd (updateAllNames alice_renamed)) 1 = Some (name_block ''Al'')"
  by (simp add: scenario_defs eval_defs)

section \<open>The order of the resolver's steps\<close>

lemma find_avatar_first:
  assumes "\<forall>d\<in>set pre. \<exists>a. normalizeAvatar (avatar d) = Inr a \<and> a \<noteq> nav"
    and "normalizeAvatar (avatar c) = Inr nav"
  shows "find_avatar nav (pre @ c # post) = Inr (Some c)"
  using assms by (induction pre) (auto split: sum.splits)

lemma find_avatar_none:
  assumes "\<forall>d\<in>set cs. \<exists>a. normalizeAvatar (avatar d) = Inr a \<and> a \<noteq> nav"
  shows "find_avatar nav cs = Inr None"
  using assms by (induction cs) auto

lemma find_none: "(\<forall>x\<in>set xs. \<not> P x) \<Longrightarrow> find P xs = None"
  by (induction xs) auto

lemma avatar_match_wins:
  assumes "characters ctx = Some (pre @ c # post)"
    and "normalizeAvatar (avatar_ref m) = Inr nav" and "nav \<noteq> []"
    and "\<forall>d\<in>set pre. \<exists>a. normalizeAvatar (avatar d) = Inr a \<and> a \<noteq> nav"
    and "normalizeAvatar (avatar c) = Inr nav"
  shows "getCharacterForMessage (Some ctx) (Some m) = Inr (Some c)"
  using assms(1-3) find_avatar_first[OF assms(4,5), of post]
  by (simp add: getCharacterForMessage_def match_avatar_def or_else_def avatar_ref_def Let_def)

lemma fallback_when_nothing_matches:
  assumes "characters ctx = Some cs"
    and "normalizeAvatar (avatar_ref m) = Inr nav"
    and "\<forall>d\<in>set cs. \<exists>a. normalizeAvatar (avatar d) = Inr a \<and> a \<noteq> nav
            \<and> (truthy (original_avatar m) \<longrightarrow> normalizeAvatar (original_avatar m) \<noteq> Inr a)"
    and "\<exists>no. normalizeAvatar (original_avatar m) = Inr no"
    and "\<forall>d\<in>set cs. \<not> exact_name (author_name m) d \<and> \<not> fuzzy_name (author_name m) d"
  shows "getCharacterForMessage (Some ctx) (Some m) =
           Inr (case characterId ctx of
                  None \<Rightarrow> None
                | Some i \<Rightarrow> if truthy (groupId ctx) then None else at_index cs i)"
proof -
  have 1: "match_avatar nav cs = Inr None"
    using find_avatar_none[of cs nav] assms(3) by (auto simp: match_avatar_def)
  have 2: "match_original m cs = Inr None"
  proof (cases "truthy (original_avatar m)")
    case False
    then show ?thesis by (simp add: match_original_def)
  next
    case True
    from assms(4) obtain no where no: "normalizeAvatar (original_avatar m) = Inr no"
      by blast
    have "\<forall>d\<in>set cs. \<exists>a. normalizeAvatar (avatar d) = Inr a \<and> a \<noteq> no"
      using assms(3) True no by auto
    from find_avatar_none[OF this] True no show ?thesis by (simp add: match_original_def)
  qed
  have 3: "match_name (author_name m) cs = Inr None"
    using assms(5) find_none[of cs "exact_name (author_name m)"]
      find_none[of cs "fuzzy_name (author_name m)"]
    by (simp add: match_name_def or_else_def)
  show ?thesis
    using assms(1,2) 1 2 3
    by (simp add: getCharacterForMessage_def or_else_def avatar_ref_def author_name_def Let_def
        fallback_def split: option.splits)
qed


text \<open>
  C2.  The message carries Alice's avatar and the name of the card \<open>Bob 100%\<close>, so one
  card matches it by avatar and the other by exact name.  With Alice listed first the
  resolver returns Alice: the avatar wins.  With the other card listed first the resolver
  throws \<open>URIError\<close>: the scan for the avatar decodes the avatar of every card it passes,
  and \<open>Bob 100%.png\<close> does not decode.
\<close>

theorem resolver_throws_before_avatar_match:
  "normalizeAvatar (avatar alice) = normalizeAvatar (avatar_ref mixed_msg) \<and>
   exact_name (author_name mixed_msg) percent_card \<and>
   getCharacterForMessage (Some (cast_ctx [alice, percent_card] None (Some (js ''g1''))))
       (Some mixed_msg)
     = Inr (Some alice) \<and>
   getCharacterForMessage (Some (cast_ctx [percent_card, alice] None (Some (js ''g1''))))
       (Some mixed_msg)
     = Inl URIError"
  by (simp add: scenario_defs eval_defs)

text \<open>
  C7.  In a one-to-one chat a message that refers to nobody resolves to the one character
  when that is Alice, and makes the resolver throw \<open>URIError\<close> when the one character
  is the card whose avatar file name is \<open>Bob 100%.png\<close>.
\<close>

theorem resolver_throws_before_fallback:
  "getCharacterForMessage (Some (cast_ctx [alice] (Some 0) None)) (Some stranger_msg)
     = Inr (Some alice) \<and>
   getCharacterForMessage (Some (cast_ctx [percent_card] (Some 0) None)) (Some stranger_msg)
     = Inl URIError"
  by (simp add: scenario_defs eval_defs)

section \<open>Writing a name into a message block\<close>

text \<open>
  A path that \<open>querySelector\<close> returns leads to an element, so the last case of
  \<open>apply_selectors\<close> is never taken.
\<close>

lemma find_node_reaches:
    "find_node s outer n = Some p \<Longrightarrow> \<exists>tg cls ks. node_at n p = Some (Elem tg cls ks)"
  and find_kids_reaches:
    "find_kids s outer ns i = Some q \<Longrightarrow>
      \<exists>j r tg cls ks. q = (i + j) # r \<and> j < length ns \<and>
         node_at (ns ! j) r = Some (Elem tg cls ks)"
proof (induction s outer n and s outer ns i arbitrary: p and q rule: find_node_find_kids.induct)
  case (1 s outer t)
  then show ?case by simp
next
  case (2 s outer tg cls ks)
  show ?case
  proof (cases "matches s outer tg cls")
    case True
    with 2(2) show ?thesis by auto
  next
    case False
    with 2(2) have "find_kids s (cls @ outer) ks 0 = Some p" by simp
    from 2(1)[OF False this] obtain j r tg' cls' ks' where
      "p = j # r" "j < length ks" "node_at (ks ! j) r = Some (Elem tg' cls' ks')"
      by auto
    then show ?thesis by simp
  qed
next
  case (3 s outer i)
  then show ?case by simp
next
  case (4 s outer k ks i)
  show ?case
  proof (cases "find_node s outer k")
    case (Some p')
    with 4(3) have q: "q = i # p'" by simp
    from 4(1)[OF Some] obtain tg cls ks' where "node_at k p' = Some (Elem tg cls ks')"
      by auto
    with q show ?thesis by (intro exI[of _ 0] exI[of _ p']) auto
  next
    case None
    with 4(3) have "find_kids s outer ks (Suc i) = Some q" by simp
    from 4(2)[OF None this] obtain j r tg cls ks' where
      "q = (Suc i + j) # r" "j < length ks" "node_at (ks ! j) r = Some (Elem tg cls ks')"
      by auto
    then show ?thesis by (intro exI[of _ "Suc j"] exI[of _ r]) auto
  qed
qed

lemma querySelector_reaches_element:
  assumes "querySelector s outer el = Some p"
  shows "\<exists>tg cls ks. node_at el p = Some (Elem tg cls ks)"
proof (cases el)
  case (Text t)
  with assms show ?thesis by simp
next
  case (Elem tg cls ks)
  with assms have "find_kids s (cls @ outer) ks 0 = Some p" by simp
  from find_kids_reaches[OF this] obtain j r tg' cls' ks' where
    "p = j # r" "j < length ks" "node_at (ks ! j) r = Some (Elem tg' cls' ks')"
    by auto
  with Elem show ?thesis by simp
qed

lemma alike_refl: "alike n n"
proof (induction n)
  case (Text t)
  then show ?case by simp
next
  case (Elem tg cls ks)
  then show ?case by (auto simp: list_all2_same)
qed

lemma alike_is_elem: "alike n n' \<Longrightarrow> is_elem n' = is_elem n"
  by (cases n; cases n') auto

lemma find_kids_no_elems: "filter is_elem ks = [] \<Longrightarrow> find_kids s outer ks i = None"
proof (induction ks arbitrary: i)
  case Nil
  then show ?case by simp
next
  case (Cons k ks)
  then show ?case by (cases k) (auto split: if_splits)
qed

lemma alike_find_node:
    "alike n n' \<Longrightarrow> find_node s outer n' = find_node s outer n"
  and alike_find_kids:
    "list_all2 alike ns ns' \<Longrightarrow> find_kids s outer ns' i = find_kids s outer ns i"
proof (induction s outer n and s outer ns i arbitrary: n' and ns'
       rule: find_node_find_kids.induct)
  case (1 s outer t)
  then show ?case by (cases n') auto
next
  case (2 s outer tg cls ks)
  from 2(2) obtain ks' where n': "n' = Elem tg cls ks'"
    and k: "if filter is_elem ks = [] then filter is_elem ks' = [] else list_all2 alike ks ks'"
    by (cases n') auto
  show ?case
  proof (cases "matches s outer tg cls")
    case True
    then show ?thesis using n' by simp
  next
    case False
    show ?thesis
    proof (cases "filter is_elem ks = []")
      case True
      with k have "filter is_elem ks' = []" by simp
      with True False n' show ?thesis by (simp add: find_kids_no_elems)
    next
      case ne: False
      with k have "list_all2 alike ks ks'" by simp
      from 2(1)[OF False this] False n' show ?thesis by simp
    qed
  qed
next
  case (3 s outer i)
  then show ?case by simp
next
  case (4 s outer k ks i)
  from 4(3) obtain k' ks' where ns': "ns' = k' # ks'" and a: "alike k k'"
    and r: "list_all2 alike ks ks'"
    by (cases ns') auto
  have h: "find_node s outer k' = find_node s outer k" using 4(1)[OF a] .
  show ?case
  proof (cases "find_node s outer k")
    case None
    with h 4(2)[OF None r] ns' show ?thesis by simp
  next
    case (Some p)
    with h ns' show ?thesis by simp
  qed
qed

lemma alike_querySelector:
  "alike el el' \<Longrightarrow> querySelector s outer el' = querySelector s outer el"
proof (cases el; cases el')
  fix tg cls ks tg' cls' ks'
  assume a: "alike el el'" and e: "el = Elem tg cls ks" "el' = Elem tg' cls' ks'"
  show ?thesis
  proof (cases "filter is_elem ks = []")
    case True
    with a e show ?thesis by (simp add: find_kids_no_elems)
  next
    case False
    with a e show ?thesis by (simp add: alike_find_kids)
  qed
qed auto

lemma node_at_Elem_is_elem:
  "node_at n p = Some (Elem tg cls ks) \<Longrightarrow> is_elem n"
  by (cases n; cases p) auto

lemma has_elem_kid: "i < length ks \<Longrightarrow> is_elem (ks ! i) \<Longrightarrow> filter is_elem ks \<noteq> []"
  by (metis filter_empty_conv nth_mem)

lemma alike_node_at:
  "alike n n' \<Longrightarrow> node_at n p = Some (Elem tg cls ks) \<Longrightarrow>
   \<exists>x'. node_at n' p = Some x' \<and> alike (Elem tg cls ks) x'"
proof (induction p arbitrary: n n')
  case Nil
  then show ?case by simp
next
  case (Cons i p)
  from Cons.prems(2) obtain tg0 cls0 ks0 where n: "n = Elem tg0 cls0 ks0"
    and i: "i < length ks0" and at: "node_at (ks0 ! i) p = Some (Elem tg cls ks)"
    by (cases n) (auto split: if_splits)
  from node_at_Elem_is_elem[OF at] i have ne: "filter is_elem ks0 \<noteq> []"
    by (rule has_elem_kid[rotated])
  from Cons.prems(1) n ne obtain ks0' where n': "n' = Elem tg0 cls0 ks0'"
    and l: "list_all2 alike ks0 ks0'"
    by (cases n') auto
  from l i have "alike (ks0 ! i) (ks0' ! i)" and "i < length ks0'"
    by (auto simp: list_all2_conv_all_nth)
  with Cons.IH[OF _ at] n' show ?case by auto
qed

lemma alike_first_text:
  "list_all2 alike ks ks' \<Longrightarrow> map_option fst (first_text ks' i) = map_option fst (first_text ks i)"
proof (induction ks ks' arbitrary: i rule: list_all2_induct)
  case Nil
  then show ?case by simp
next
  case (Cons k ks k' ks')
  then show ?case by (cases k; cases k') auto
qed

lemma alike_update_at:
  "node_at n p = Some old \<Longrightarrow> alike old new \<Longrightarrow> alike n (update_at n p new)"
proof (induction p arbitrary: n)
  case Nil
  then show ?case by simp
next
  case (Cons i p)
  from Cons.prems(1) obtain tg cls ks where n: "n = Elem tg cls ks"
    and i: "i < length ks" and at: "node_at (ks ! i) p = Some old"
    by (cases n) (auto split: if_splits)
  let ?k = "update_at (ks ! i) p new"
  have a: "alike (ks ! i) ?k" using Cons.IH[OF at Cons.prems(2)] .
  have e: "is_elem ?k = is_elem (ks ! i)" using alike_is_elem[OF a] .
  show ?case
  proof (cases "filter is_elem ks = []")
    case True
    then have "\<forall>x\<in>set ks. \<not> is_elem x" by (simp add: filter_empty_conv)
    moreover have "\<not> is_elem ?k" using e True i by (auto simp: filter_empty_conv)
    ultimately have "filter is_elem (ks[i := ?k]) = []"
      by (auto simp: filter_empty_conv dest: set_update_subset_insert[THEN subsetD])
    with True n i show ?thesis by simp
  next
    case False
    have "list_all2 alike ks (ks[i := ?k])"
      using a i by (auto simp: list_all2_conv_all_nth nth_list_update alike_refl)
    with False n i show ?thesis by simp
  qed
qed

lemma node_at_update_at:
  "node_at n p = Some old \<Longrightarrow> node_at (update_at n p new) p = Some new"
proof (induction p arbitrary: n)
  case Nil
  then show ?case by simp
next
  case (Cons i p)
  then show ?case by (cases n) (auto split: if_splits)
qed

lemma node_at_update_kid:
  "node_at n p = Some (Elem tg cls ks) \<Longrightarrow> i < length ks \<Longrightarrow>
   node_at (update_at n (p @ [i]) new) p = Some (Elem tg cls (ks[i := new]))"
proof (induction p arbitrary: n)
  case Nil
  then show ?case by simp
next
  case (Cons j p)
  then show ?case by (cases n) (auto split: if_splits)
qed

lemma node_at_kid_of:
  "node_at n p = Some (Elem tg cls ks) \<Longrightarrow> i < length ks \<Longrightarrow>
   node_at n (p @ [i]) = Some (ks ! i)"
proof (induction p arbitrary: n)
  case Nil
  then show ?case by simp
next
  case (Cons j p)
  then show ?case by (cases n) (auto split: if_splits)
qed

lemma first_text_bounds:
  "first_text ks i = Some (j, t) \<Longrightarrow>
   i \<le> j \<and> j < i + length ks \<and> ks ! (j - i) = Text t \<and> trim t \<noteq> []"
proof (induction ks i rule: first_text.induct)
  case (1 i)
  then show ?case by simp
next
  case (2 t' ks i)
  show ?case
  proof (cases "length (trim t') > 0")
    case True
    with 2(2) show ?thesis by auto
  next
    case False
    with 2 have r: "Suc i \<le> j \<and> j < Suc i + length ks \<and> ks ! (j - Suc i) = Text t \<and> trim t \<noteq> []"
      by simp
    then obtain d where d: "j - i = Suc d" "j - Suc i = d" by (cases "j - i") auto
    with r show ?thesis by simp
  qed
next
  case (3 tg cls ks' ks i)
  then have r: "Suc i \<le> j \<and> j < Suc i + length ks \<and> ks ! (j - Suc i) = Text t \<and> trim t \<noteq> []"
    by simp
  then obtain d where d: "j - i = Suc d" "j - Suc i = d" by (cases "j - i") auto
  with r show ?case by simp
qed

lemma first_text_update:
  "first_text ks i = Some (j, t) \<Longrightarrow> trim s \<noteq> [] \<Longrightarrow>
   first_text (ks[j - i := Text s]) i = Some (j, s)"
proof (induction ks i rule: first_text.induct)
  case (1 i)
  then show ?case by simp
next
  case (2 t' ks i)
  show ?case
  proof (cases "length (trim t') > 0")
    case True
    with 2(2,3) show ?thesis by auto
  next
    case False
    with 2(2) have f: "first_text ks (Suc i) = Some (j, t)" by simp
    from first_text_bounds[OF f] have "Suc i \<le> j" by simp
    then obtain d where d: "j - i = Suc d" "j - Suc i = d" by (cases "j - i") auto
    from 2(1)[OF _ f 2(3)] False d show ?thesis by simp
  qed
next
  case (3 tg cls ks' ks i)
  from 3(2) have f: "first_text ks (Suc i) = Some (j, t)" by simp
  from first_text_bounds[OF f] have "Suc i \<le> j" by simp
  then obtain d where d: "j - i = Suc d" "j - Suc i = d" by (cases "j - i") auto
  from 3(1)[OF f 3(3)] d show ?case by simp
qed


lemma alike_elem_kids:
  "list_all2 alike ks ks' \<Longrightarrow> (filter is_elem ks' = []) = (filter is_elem ks = [])"
  by (induction ks ks' rule: list_all2_induct) (auto simp: alike_is_elem)

lemma alike_Elem:
  assumes "alike (Elem tg cls ks) x'" and "filter is_elem ks \<noteq> []"
  obtains ks' where "x' = Elem tg cls ks'" and "list_all2 alike ks ks'"
  using assms by (cases x') auto

lemma apply_selectors_idempotent:
  assumes tr: "trim s = s" and ne: "s \<noteq> []"
  shows "apply_selectors ss outer el (Some s) = (el', k) \<Longrightarrow>
         alike el el' \<and> apply_selectors ss outer el' (Some s) = (el', 0)"
proof (induction ss)
  case Nil
  then show ?case by (simp add: alike_refl)
next
  case (Cons s0 ss)
  show ?case
  proof (cases "querySelector s0 outer el")
    case None
    with Cons.prems have r: "apply_selectors ss outer el (Some s) = (el', k)" by simp
    from Cons.IH[OF r] have a: "alike el el'"
      and i: "apply_selectors ss outer el' (Some s) = (el', 0)" by simp_all
    from alike_querySelector[OF a, of s0 outer] None i a show ?thesis by simp
  next
    case (Some p)
    from querySelector_reaches_element[OF Some] obtain tg cls ks where
      at: "node_at el p = Some (Elem tg cls ks)" by blast
    show ?thesis
    proof (cases "filter is_elem ks = []")
      case True
      show ?thesis
      proof (cases "textContent (Elem tg cls ks) = s")
        case same: True
        with Cons.prems Some at True have "el' = el" by simp
        with Some at True same show ?thesis by (simp add: alike_refl)
      next
        case False
        with Cons.prems Some at True ne
        have el': "el' = update_at el p (Elem tg cls [Text s])" by simp
        have "alike (Elem tg cls ks) (Elem tg cls [Text s])" using True by simp
        from alike_update_at[OF at this] el' have a: "alike el el'" by simp
        have q: "querySelector s0 outer el' = Some p"
          using alike_querySelector[OF a, of s0 outer] Some by simp
        have n: "node_at el' p = Some (Elem tg cls [Text s])"
          using node_at_update_at[OF at] el' by simp
        from a q n show ?thesis by simp
      qed
    next
      case kids: False
      show ?thesis
      proof (cases "first_text ks 0")
        case None
        with Cons.prems Some at kids have r: "apply_selectors ss outer el (Some s) = (el', k)"
          by simp
        from Cons.IH[OF r] have a: "alike el el'"
          and i: "apply_selectors ss outer el' (Some s) = (el', 0)" by simp_all
        have q: "querySelector s0 outer el' = Some p"
          using alike_querySelector[OF a, of s0 outer] Some by simp
        from alike_node_at[OF a at] obtain x' where x: "node_at el' p = Some x'"
          and ax: "alike (Elem tg cls ks) x'" by blast
        from alike_Elem[OF ax kids] obtain ks' where ks': "x' = Elem tg cls ks'"
          and l: "list_all2 alike ks ks'" by blast
        have k': "filter is_elem ks' \<noteq> []" using alike_elem_kids[OF l] kids by simp
        have f: "first_text ks' 0 = None" using alike_first_text[OF l, of 0] None by simp
        from q x ks' k' f i a show ?thesis by simp
      next
        case (Some it)
        obtain i t where it: "it = (i, t)" by (cases it)
        note ft = Some[unfolded it]
        from first_text_bounds[OF ft] have i: "i < length ks" and ki: "ks ! i = Text t"
          and nb: "trim t \<noteq> []" by simp_all
        show ?thesis
        proof (cases "trim t = s")
          case True
          with Cons.prems \<open>querySelector s0 outer el = Some p\<close> at kids ft have "el' = el" by simp
          with \<open>querySelector s0 outer el = Some p\<close> at kids ft True show ?thesis
            by (simp add: alike_refl)
        next
          case False
          with Cons.prems \<open>querySelector s0 outer el = Some p\<close> at kids ft
          have el': "el' = update_at el (p @ [i]) (Text s)" by simp
          have at': "node_at el (p @ [i]) = Some (Text t)"
            using node_at_kid_of[OF at i] ki by simp
          have "alike (Text t) (Text s)" using nb tr ne by simp
          from alike_update_at[OF at' this] el' have a: "alike el el'" by simp
          have q: "querySelector s0 outer el' = Some p"
            using alike_querySelector[OF a, of s0 outer] \<open>querySelector s0 outer el = Some p\<close>
            by simp
          have n: "node_at el' p = Some (Elem tg cls (ks[i := Text s]))"
            using node_at_update_kid[OF at i] el' by simp
          have l: "list_all2 alike ks (ks[i := Text s])"
            using i ki nb tr ne
            by (auto simp: list_all2_conv_all_nth nth_list_update alike_refl)
          have k': "filter is_elem (ks[i := Text s]) \<noteq> []"
            using alike_elem_kids[OF l] kids by simp
          have f: "first_text (ks[i := Text s]) 0 = Some (i, s)"
            using first_text_update[OF ft, of s] tr ne by simp
          from a q n k' f tr show ?thesis by simp
        qed
      qed
    qed
  qed
qed

text \<open>
  With a name that is not empty and equal to its own trim, writing it into a block a
  second time writes nothing and leaves the block as the first write made it.
\<close>

lemma applyNameOverrideToElement_idempotent:
  assumes "trim s = s" and "s \<noteq> []"
    and "applyNameOverrideToElement outer el (Some s) = (el', k)"
  shows "applyNameOverrideToElement outer el' (Some s) = (el', 0)"
  using apply_selectors_idempotent[OF assms(1,2), of selectors outer el el' k] assms(3)
  by (simp add: applyNameOverrideToElement_def)

section \<open>Running the synchronizer twice\<close>

text \<open>
  C4.  On the chat with the card named \<open>Bob \<close> (with the trailing space), whose name
  element holds an icon and the text, each run of the synchronizer ends without a throw
  and writes the text node once more: the text node's trimmed content is compared with
  the untrimmed name.  On the chat with Alice the second run writes nothing.
\<close>

theorem second_run_writes_again:
  "fst (syncChatData spaced_world) = None \<and>
   dom_writes (invoke_all [SyncChatData] spaced_world) = 1 \<and>
   fst (syncChatData (invoke_all [SyncChatData] spaced_world)) = None \<and>
   dom_writes (invoke_all [SyncChatData, SyncChatData] spaced_world) = 2 \<and>
   blocks (invoke_all [SyncChatData, SyncChatData] spaced_world) 0 = Some (icon_block ''Bob '') \<and>
   dom_writes (invoke_all [SyncChatData] alice_world) = 1 \<and>
   dom_writes (invoke_all [SyncChatData, SyncChatData] alice_world) = 1"
  by (simp add: scenario_defs eval_defs)

section \<open>Macro registration\<close>

















section \<open>Start-up\<close>

lemma funpow_fixed: "f x = x \<Longrightarrow> (f ^^ n) x = x"
  by (induction n) simp_all

lemma initialize_completed:
  "initialize s = (None, s') \<Longrightarrow> initialized s'"
  by (auto simp: initialize_def and_then_def split: if_splits prod.splits option.splits)

lemma initialize_v1_completed:
  "initialize_v1 t = (None, t') \<Longrightarrow> initialized t'"
  by (auto simp: initialize_v1_def and_then_def split: if_splits prod.splits option.splits)

text \<open>
  C9.  With the \<open>initialized\<close> flag set, \<open>initialize\<close> returns the state as it is: no
  input field, no listener, no subscription and no macro-engine call is added.  A call of
  \<open>initialize\<close> that runs to its end sets the flag, so every later call, however many,
  leaves the state it produced.  Both versions.
\<close>

theorem initialize_once:
  "(initialized s \<longrightarrow> initialize s = (None, s)) \<and>
   (initialize s = (None, s') \<longrightarrow>
      initialized s' \<and> initialize s' = (None, s') \<and> ((snd \<circ> initialize) ^^ n) s' = s') \<and>
   (initialized t \<longrightarrow> initialize_v1 t = (None, t)) \<and>
   (initialize_v1 t = (None, t') \<longrightarrow>
      initialized t' \<and> initialize_v1 t' = (None, t') \<and> ((snd \<circ> initialize_v1) ^^ n) t' = t')"
proof -
  have a: "initialize x = (None, x)" if "initialized x" for x
    using that by (simp add: initialize_def)
  have b: "initialize_v1 y = (None, y)" if "initialized y" for y
    using that by (simp add: initialize_v1_def)
  have c: "((snd \<circ> initialize) ^^ n) x = x" if "initialized x" for x
    using a[OF that] by (intro funpow_fixed) simp
  have d: "((snd \<circ> initialize_v1) ^^ n) y = y" if "initialized y" for y
    using b[OF that] by (intro funpow_fixed) simp
  show ?thesis
    using a b c d initialize_completed[of s s'] initialize_v1_completed[of t t'] by blast
qed

theorem initialize_once_witness:
  "\<not> initialized page \<and> fst (initialize page) = None \<and>
   initialized (snd (initialize page)) \<and>
   initialize (snd (initialize page)) = (None, snd (initialize page)) \<and>
   ((snd \<circ> initialize) ^^ 3) (snd (initialize page)) = snd (initialize page) \<and>
   length (subscriptions (snd (initialize page))) = 7 \<and>
   \<not> initialized page_v1 \<and> fst (initialize_v1 page_v1) = None \<and>
   initialize_v1 (snd (initialize_v1 page_v1)) = (None, snd (initialize_v1 page_v1)) \<and>
   ((snd \<circ> initialize_v1) ^^ 3) (snd (initialize_v1 page_v1)) = snd (initialize_v1 page_v1) \<and>
   length (subscriptions (snd (initialize_v1 page_v1))) = 2"
proof -
  have a: "fst (initialize page) = None" "fst (initialize_v1 page_v1) = None"
    "\<not> initialized page" "\<not> initialized page_v1"
    "length (subscriptions (snd (initialize page))) = 7"
    "length (subscriptions (snd (initialize_v1 page_v1))) = 2"
    by (simp_all add: lifecycle_defs scenario_defs eval_defs)
  have b: "initialize page = (None, snd (initialize page))"
    "initialize_v1 page_v1 = (None, snd (initialize_v1 page_v1))"
    using a(1,2) by (simp_all add: prod_eq_iff)
  from initialize_once[of page "snd (initialize page)" 3 page_v1 "snd (initialize_v1 page_v1)"] a b
  show ?thesis by blast
qed

end
